theory Spec2Isabelle
  imports
    Main
    "HOL-Library.AList"
    "HOL-Library.List_Lexorder"
    "HOL-Library.Sublist"
    "HOL-Library.Multiset"
begin

section \<open>Shop page controller (assets/shop-page.js)\<close>

text \<open>
  The script keeps a product list, a derived list of filter groups and one mutable state
  object. Its filtering, sorting, counting, taxonomy, URL and pagination logic is embedded
  here function by function, under the names of the source.

  Conventions of the embedding.
  \<^item> A JavaScript string is the list of its UTF-16 code units, a \<open>jsstring\<close>; \<open>indexOf\<close>,
    \<open>substring\<close>, \<open>split\<close>, \<open>join\<close>, \<open>trim\<close>, \<open>===\<close> and the order of \<open>sort()\<close> all work on code
    units. A literal is written \<open>js ''text''\<close>. Identifiers are given as strings, so that
    \<open>String(p.id)\<close> is the identity.
  \<^item> A price is a currency amount, a \<open>nat\<close> in the smallest unit (the script uses only the
    order, the difference and the zero-ness of prices); a timestamp is an \<open>int\<close> of
    milliseconds; a comparator result is an \<open>int option\<close> with \<open>None\<close> for \<open>NaN\<close>.
  \<^item> An object used as a dictionary (\<open>parsedTags\<close>, \<open>activeFilters\<close>, \<open>categoryMap\<close>) is an
    association list of its own properties in insertion order: \<open>o[k] = v\<close> is
    \<open>AList.update k v o\<close> (an existing key keeps its place, a new key goes last) and
    \<open>for (k in o)\<close> runs over \<open>map fst o\<close>. The engine's rule that integer-like keys are
    enumerated first is left out; every enumeration below is followed by a sort or feeds a
    result that does not depend on the order.
  \<^item> Reading \<open>o[k]\<close> also sees the members that every object inherits from
    \<open>Object.prototype\<close>. Where the key is text from the feed or from the URL (the category
    of a tag, the collection alias) the read is \<open>getProp\<close>, which tells an own property
    from an inherited member and from \<open>undefined\<close>; and a write under the key \<open>__proto__\<close>
    stores no property (\<open>setFlag\<close>). The keys of \<open>activeFilters\<close> and of a product's
    \<open>parsedTags\<close> are never inherited names (\<open>parseTags\<close> throws on such a category, and a
    filter key is a group key, the key of a collection mapping or \<open>undefined\<close>), so the
    filter functions read with \<open>map_of\<close>.
  \<^item> \<open>Date\<close> parsing, the clock, \<open>JSON.parse\<close>, the CSS selector parser and the order that
    \<open>Array.prototype.sort\<close> leaves for an inconsistent comparator belong to the platform and
    are parameters.
\<close>

subsection \<open>Data model\<close>

type_synonym jsstring = "nat list"

definition js :: "string \<Rightarrow> jsstring" where
  "js s = map of_char s"

type_synonym 'v obj = "(jsstring \<times> 'v) list"

text \<open>An element of a selection: a string, or \<open>undefined\<close>.\<close>

datatype jsval = Undefined | Str jsstring

datatype badge = Sale | New | NoBadge

datatype js_error = TypeError | SyntaxError

record variant =
  title :: jsstring
  v_available :: bool

text \<open>A raw entry of the feed: optional fields are those the loader defaults with \<open>||\<close>.\<close>

record raw_product =
  r_id :: jsstring
  r_handle :: jsstring
  r_name :: jsstring
  r_vendor :: "jsstring option"
  r_url :: "jsstring option"
  r_price :: nat
  r_comparePrice :: "nat option"
  r_available :: bool
  r_image :: "jsstring option"
  r_imageAlt :: "jsstring option"
  r_tags :: "jsstring list option"
  r_type :: "jsstring option"
  r_createdAt :: "jsstring option"
  r_variants :: "variant list option"

record product =
  id_p :: jsstring
  handle :: jsstring
  name_p :: jsstring
  vendor :: jsstring
  url :: jsstring
  price :: nat
  comparePrice :: "nat option"
  available :: bool
  image_p :: jsstring
  imageAlt :: "jsstring option"
  rawTags :: "jsstring list"
  parsedTags :: "jsstring list obj"
  type_p :: jsstring
  createdAt :: jsstring
  variants :: "variant list"
  featured :: nat
  badge :: "badge"

subsection \<open>Members inherited from \<open>Object.prototype\<close>\<close>

definition inheritedNames :: "jsstring list" where
  "inheritedNames =
     map js [''constructor'', ''__defineGetter__'', ''__defineSetter__'', ''hasOwnProperty'',
             ''__lookupGetter__'', ''__lookupSetter__'', ''isPrototypeOf'',
             ''propertyIsEnumerable'', ''toString'', ''valueOf'', ''__proto__'',
             ''toLocaleString'']"

text \<open>What \<open>o[k]\<close> finds: an own property, an inherited member (a function, or the prototype
  itself for \<open>__proto__\<close>: truthy, without \<open>indexOf\<close>, \<open>key\<close> or \<open>value\<close>), or nothing.\<close>

datatype 'v lookup = Own 'v | Inherited | Absent

definition getProp :: "'v obj \<Rightarrow> jsstring \<Rightarrow> 'v lookup" where
  "getProp ob k =
     (case map_of ob k of
        Some v \<Rightarrow> Own v
      | None \<Rightarrow> if k \<in> set inheritedNames then Inherited else Absent)"

subsection \<open>Filter logic\<close>

text \<open>\<open>product.parsedTags[groupKey] || []\<close>: an array is always truthy, so the default is
  taken exactly when the key is missing.\<close>

definition tagValues :: "product \<Rightarrow> jsstring \<Rightarrow> jsstring list" where
  "tagValues product groupKey =
     (case map_of (parsedTags product) groupKey of None \<Rightarrow> [] | Some vs \<Rightarrow> vs)"

text \<open>\<open>productValues.indexOf(x) !== -1\<close>: the values are strings, and \<open>undefined\<close> is
  strictly equal to none of them.\<close>

definition inArray :: "jsstring list \<Rightarrow> jsval \<Rightarrow> bool" where
  "inArray productValues x = (case x of Undefined \<Rightarrow> False | Str s \<Rightarrow> s \<in> set productValues)"

text \<open>The \<open>for\<close> loop of \<open>productMatchesGroup\<close>, with its early \<open>return true\<close>.\<close>

fun matchLoop :: "jsstring list \<Rightarrow> jsval list \<Rightarrow> bool" where
  "matchLoop productValues [] = False"
| "matchLoop productValues (v # selectedValues) =
     (if inArray productValues v then True else matchLoop productValues selectedValues)"

definition productMatchesGroup :: "product \<Rightarrow> jsstring \<Rightarrow> jsval list \<Rightarrow> bool" where
  "productMatchesGroup product groupKey selectedValues =
     matchLoop (tagValues product groupKey) selectedValues"

text \<open>\<open>filters[k] && filters[k].length > 0\<close>.\<close>

definition hasSelection :: "jsval list obj \<Rightarrow> jsstring \<Rightarrow> bool" where
  "hasSelection filters k =
     (case map_of filters k of None \<Rightarrow> False | Some vs \<Rightarrow> 0 < length vs)"

definition activeKeysOf :: "jsval list obj \<Rightarrow> jsstring list" where
  "activeKeysOf filters = [k \<leftarrow> map fst filters. hasSelection filters k]"

text \<open>\<open>filters[key]\<close> for a key that \<open>activeKeysOf\<close> has admitted.\<close>

definition selectionOf :: "jsval list obj \<Rightarrow> jsstring \<Rightarrow> jsval list" where
  "selectionOf filters k = (case map_of filters k of None \<Rightarrow> [] | Some vs \<Rightarrow> vs)"

definition filterProducts :: "product list \<Rightarrow> jsval list obj \<Rightarrow> product list" where
  "filterProducts products filters =
     (let activeKeys = activeKeysOf filters in
      if length activeKeys = 0 then products
      else filter (\<lambda>product.
             list_all (\<lambda>key. productMatchesGroup product key (selectionOf filters key))
               activeKeys) products)"

text \<open>\<open>countForValue\<close>: the other groups' non-empty selections are copied into a fresh
  object, the products are filtered against it, and those carrying the value are counted.\<close>

definition otherFiltersOf :: "jsval list obj \<Rightarrow> jsstring \<Rightarrow> jsval list obj" where
  "otherFiltersOf currentFilters groupKey =
     fold (\<lambda>k otherFilters.
             if k \<noteq> groupKey \<and> hasSelection currentFilters k
             then AList.update k (selectionOf currentFilters k) otherFilters
             else otherFilters)
          (map fst currentFilters) []"

definition countForValue :: "product list \<Rightarrow> jsval list obj \<Rightarrow> jsstring \<Rightarrow> jsstring \<Rightarrow> nat" where
  "countForValue allProducts currentFilters groupKey value =
     (let otherFilters = otherFiltersOf currentFilters groupKey;
          baseFiltered = filterProducts allProducts otherFilters
      in length (filter (\<lambda>p. value \<in> set (tagValues p groupKey)) baseFiltered))"

definition totalActiveCount :: "jsval list obj \<Rightarrow> nat" where
  "totalActiveCount filters =
     fold (\<lambda>k count. count + length (selectionOf filters k)) (map fst filters) 0"

subsection \<open>Sorting\<close>

text \<open>
  \<open>Array.prototype.sort\<close> with a comparator. The standard reads a comparator result \<open>NaN\<close>
  as \<open>+0\<close>. Where the comparator, read so, is a consistent comparator for the elements of
  the array, the standard fixes the result: the elements in ascending order of the
  comparator, those that compare equal in their old order. That list is \<open>stableSort\<close>,
  built by insertion. Where the comparator is not consistent the standard leaves the
  order to the engine.
\<close>

definition cmpValue :: "int option \<Rightarrow> int" where
  "cmpValue v = (case v of None \<Rightarrow> 0 | Some n \<Rightarrow> n)"

fun insertSorted :: "('a \<Rightarrow> 'a \<Rightarrow> int option) \<Rightarrow> 'a \<Rightarrow> 'a list \<Rightarrow> 'a list" where
  "insertSorted cmp x [] = [x]"
| "insertSorted cmp x (y # ys) =
     (if cmpValue (cmp x y) \<le> 0 then x # y # ys else y # insertSorted cmp x ys)"

definition stableSort :: "('a \<Rightarrow> 'a \<Rightarrow> int option) \<Rightarrow> 'a list \<Rightarrow> 'a list" where
  "stableSort cmp xs = foldr (insertSorted cmp) xs []"

text \<open>The standard's conditions of a consistent comparator, over the elements of the
  array: equality is reflexive, symmetric and transitive, and so are \<open><\<close> and \<open>>\<close>
  transitive.\<close>

definition consistentOn :: "('a \<Rightarrow> 'a \<Rightarrow> int option) \<Rightarrow> 'a list \<Rightarrow> bool" where
  "consistentOn cmp xs =
     list_all (\<lambda>a.
       cmpValue (cmp a a) = 0 \<and>
       list_all (\<lambda>b.
         (cmpValue (cmp a b) = 0 \<longrightarrow> cmpValue (cmp b a) = 0) \<and>
         list_all (\<lambda>c.
           (cmpValue (cmp a b) = 0 \<and> cmpValue (cmp b c) = 0 \<longrightarrow> cmpValue (cmp a c) = 0) \<and>
           (cmpValue (cmp a b) < 0 \<and> cmpValue (cmp b c) < 0 \<longrightarrow> cmpValue (cmp a c) < 0) \<and>
           (cmpValue (cmp a b) > 0 \<and> cmpValue (cmp b c) > 0 \<longrightarrow> cmpValue (cmp a c) > 0)) xs) xs) xs"

text \<open>
  \<open>engine\<close> is what the engine at hand leaves for an inconsistent comparator. An engine
  rearranges the array; a parameter that returns anything but a rearrangement is not an
  engine, and the array is then taken as \<open>stableSort\<close> leaves it.
\<close>

definition arraySort ::
  "(('a \<Rightarrow> 'a \<Rightarrow> int option) \<Rightarrow> 'a list \<Rightarrow> 'a list) \<Rightarrow> ('a \<Rightarrow> 'a \<Rightarrow> int option) \<Rightarrow> 'a list \<Rightarrow> 'a list" where
  "arraySort engine cmp xs =
     (if consistentOn cmp xs then stableSort cmp xs
      else if mset (engine cmp xs) = mset xs then engine cmp xs
      else stableSort cmp xs)"

text \<open>
  One engine: V8 (Chrome, Node) on an array of fewer than 64 elements. It takes the run
  at the front of the array (\<open>CountAndMakeRun\<close>: strictly descending and then reversed, or
  else non-descending) and inserts each further element by binary search
  (\<open>BinaryInsertionSort\<close>). Longer arrays are merged from several runs; that is not
  modelled, and on them this function is not V8's.
\<close>

fun runAscending :: "('a \<Rightarrow> 'a \<Rightarrow> int option) \<Rightarrow> 'a \<Rightarrow> 'a list \<Rightarrow> nat" where
  "runAscending cmp previous [] = 0"
| "runAscending cmp previous (current # rest) =
     (if cmpValue (cmp current previous) < 0 then 0 else Suc (runAscending cmp current rest))"

fun runDescending :: "('a \<Rightarrow> 'a \<Rightarrow> int option) \<Rightarrow> 'a \<Rightarrow> 'a list \<Rightarrow> nat" where
  "runDescending cmp previous [] = 0"
| "runDescending cmp previous (current # rest) =
     (if cmpValue (cmp current previous) \<ge> 0 then 0 else Suc (runDescending cmp current rest))"

fun countAndMakeRun :: "('a \<Rightarrow> 'a \<Rightarrow> int option) \<Rightarrow> 'a list \<Rightarrow> nat \<times> 'a list" where
  "countAndMakeRun cmp (elementHigh # elementLow # rest) =
     (if cmpValue (cmp elementLow elementHigh) < 0
      then (let runLength = 2 + runDescending cmp elementLow rest
            in (runLength, rev (take runLength (elementHigh # elementLow # rest))
                           @ drop runLength (elementHigh # elementLow # rest)))
      else (2 + runAscending cmp elementLow rest, elementHigh # elementLow # rest))"
| "countAndMakeRun cmp xs = (length xs, xs)"

function binarySearch :: "('a \<Rightarrow> 'a \<Rightarrow> int option) \<Rightarrow> 'a \<Rightarrow> 'a list \<Rightarrow> nat \<Rightarrow> nat \<Rightarrow> nat" where
  "binarySearch cmp pivot xs left right =
     (if left < right
      then (let mid = left + (right - left) div 2
            in if cmpValue (cmp pivot (xs ! mid)) < 0
               then binarySearch cmp pivot xs left mid
               else binarySearch cmp pivot xs (mid + 1) right)
      else left)"
  by pat_completeness auto
termination
  by (relation "measure (\<lambda>(cmp, pivot, xs, left, right). right - left)") auto

definition insertBinary :: "('a \<Rightarrow> 'a \<Rightarrow> int option) \<Rightarrow> 'a \<Rightarrow> 'a list \<Rightarrow> 'a list" where
  "insertBinary cmp pivot xs =
     (let left = binarySearch cmp pivot xs 0 (length xs)
      in take left xs @ pivot # drop left xs)"

definition v8SortShort :: "('a \<Rightarrow> 'a \<Rightarrow> int option) \<Rightarrow> 'a list \<Rightarrow> 'a list" where
  "v8SortShort cmp xs =
     (if length xs < 2 then xs
      else (case countAndMakeRun cmp xs of
              (runLength, ys) \<Rightarrow> fold (insertBinary cmp) (drop runLength ys) (take runLength ys)))"

text \<open>\<open>new Date(s)\<close> read as a number: the empty string is an invalid date, any other
  string is left to the platform's parser.\<close>

definition newDate :: "(jsstring \<Rightarrow> int option) \<Rightarrow> jsstring \<Rightarrow> int option" where
  "newDate dateParse s = (if s = [] then None else dateParse s)"

text \<open>Subtraction of two numbers, \<open>NaN\<close> when either is.\<close>

definition numSub :: "int option \<Rightarrow> int option \<Rightarrow> int option" where
  "numSub a b = (case a of None \<Rightarrow> None | Some x \<Rightarrow> (case b of None \<Rightarrow> None | Some y \<Rightarrow> Some (x - y)))"

definition comparatorFor ::
  "(jsstring \<Rightarrow> int option) \<Rightarrow> jsstring \<Rightarrow> product \<Rightarrow> product \<Rightarrow> int option" where
  "comparatorFor dateParse sortKey =
     (if sortKey = js ''price-asc'' then (\<lambda>a b. Some (int (price a) - int (price b)))
      else if sortKey = js ''price-desc'' then (\<lambda>a b. Some (int (price b) - int (price a)))
      else if sortKey = js ''newest'' then
        (\<lambda>a b. numSub (newDate dateParse (createdAt b)) (newDate dateParse (createdAt a)))
      else if sortKey = js ''best-selling'' then (\<lambda>a b. Some (int (featured a) - int (featured b)))
      else (\<lambda>a b. Some (int (featured a) - int (featured b))))"

type_synonym sort_engine = "(product \<Rightarrow> product \<Rightarrow> int option) \<Rightarrow> product list \<Rightarrow> product list"

text \<open>The array that \<open>sortProducts\<close> returns, as a value.\<close>

definition sortProducts ::
  "sort_engine \<Rightarrow> (jsstring \<Rightarrow> int option) \<Rightarrow> product list \<Rightarrow> jsstring \<Rightarrow> product list" where
  "sortProducts engine dateParse products sortKey =
     (let sortedArr = products in arraySort engine (comparatorFor dateParse sortKey) sortedArr)"

text \<open>
  The same function on a store of array objects, where an address is an index into the
  store: \<open>products.slice()\<close> allocates a copy at the next free address and
  \<open>sorted.sort(...)\<close> overwrites the array at that address in place.
\<close>

type_synonym 'a store = "'a list list"

definition slice_st :: "'a store \<Rightarrow> nat \<Rightarrow> nat \<times> 'a store" where
  "slice_st h a = (length h, h @ [h ! a])"

definition sort_st ::
  "(('a \<Rightarrow> 'a \<Rightarrow> int option) \<Rightarrow> 'a list \<Rightarrow> 'a list) \<Rightarrow> ('a \<Rightarrow> 'a \<Rightarrow> int option) \<Rightarrow>
     'a store \<Rightarrow> nat \<Rightarrow> 'a store" where
  "sort_st engine cmp h a = h[a := arraySort engine cmp (h ! a)]"

definition sortProducts_st ::
  "sort_engine \<Rightarrow> (jsstring \<Rightarrow> int option) \<Rightarrow> product store \<Rightarrow> nat \<Rightarrow> jsstring \<Rightarrow>
     nat \<times> product store" where
  "sortProducts_st engine dateParse h products sortKey =
     (case slice_st h products of
        (sortedArr, h1) \<Rightarrow>
          (sortedArr, sort_st engine (comparatorFor dateParse sortKey) h1 sortedArr))"

subsection \<open>Tag parser\<close>

text \<open>\<open>trim\<close> removes the white space and line terminators of the standard from both ends;
  \<open>indexOf\<close> gives \<open>None\<close> for \<open>-1\<close>.\<close>

definition isSpace :: "nat \<Rightarrow> bool" where
  "isSpace u = (u = 0x0009 \<or> u = 0x000A \<or> u = 0x000B \<or> u = 0x000C \<or> u = 0x000D
                \<or> u = 0x0020 \<or> u = 0x00A0 \<or> u = 0x1680 \<or> (0x2000 \<le> u \<and> u \<le> 0x200A)
                \<or> u = 0x2028 \<or> u = 0x2029 \<or> u = 0x202F \<or> u = 0x205F \<or> u = 0x3000
                \<or> u = 0xFEFF)"

definition trim :: "jsstring \<Rightarrow> jsstring" where
  "trim s = rev (dropWhile isSpace (rev (dropWhile isSpace s)))"

fun indexOf :: "nat \<Rightarrow> jsstring \<Rightarrow> nat option" where
  "indexOf c [] = None"
| "indexOf c (x # xs) = (if x = c then Some 0 else map_option Suc (indexOf c xs))"

text \<open>The colon is code unit 58.\<close>

definition splitTag :: "jsstring \<Rightarrow> jsstring \<times> jsstring" where
  "splitTag tag =
     (case indexOf 58 tag of
        None \<Rightarrow> (js ''Other'', trim tag)
      | Some colonIndex \<Rightarrow>
          if 0 < colonIndex
          then (trim (take colonIndex tag), trim (drop (colonIndex + 1) tag))
          else (js ''Other'', trim tag))"

text \<open>
  The body of the \<open>forEach\<close>. When the category is the name of an inherited member,
  \<open>result[category]\<close> is that member: it is truthy, so no array is stored, and it has no
  \<open>indexOf\<close>, so the call throws a \<open>TypeError\<close>; that is \<open>None\<close>.
\<close>

definition parseTagStep :: "jsstring \<Rightarrow> jsstring list obj \<Rightarrow> jsstring list obj option" where
  "parseTagStep tag result =
     (case splitTag tag of (category, value) \<Rightarrow>
        if value = [] then Some result
        else
          (case getProp result category of
             Inherited \<Rightarrow> None
           | Absent \<Rightarrow>
               (let result1 = AList.update category [] result;
                    present = []
                in Some (if value \<notin> set present
                         then AList.update category (present @ [value]) result1
                         else result1))
           | Own present \<Rightarrow>
               Some (if value \<notin> set present
                     then AList.update category (present @ [value]) result
                     else result)))"

fun parseLoop :: "jsstring list \<Rightarrow> jsstring list obj \<Rightarrow> jsstring list obj option" where
  "parseLoop [] result = Some result"
| "parseLoop (tag # tags) result =
     (case parseTagStep tag result of
        None \<Rightarrow> None
      | Some result1 \<Rightarrow> parseLoop tags result1)"

definition parseTags :: "jsstring list \<Rightarrow> jsstring list obj option" where
  "parseTags tags = parseLoop tags []"

text \<open>The tags on which \<open>parseTags\<close> throws: those with a value whose category is the name
  of an inherited member.\<close>

definition inheritedCategory :: "jsstring \<Rightarrow> bool" where
  "inheritedCategory tag =
     (case splitTag tag of (category, value) \<Rightarrow> value \<noteq> [] \<and> category \<in> set inheritedNames)"

subsection \<open>Catalog loader\<close>

text \<open>\<open>getBadge\<close>; \<open>null\<close> is \<open>NoBadge\<close>. A number is truthy when it is not zero, a
  string when it is not empty.\<close>

definition getBadge :: "(jsstring \<Rightarrow> int option) \<Rightarrow> int \<Rightarrow> raw_product \<Rightarrow> badge" where
  "getBadge dateParse thirtyDaysAgo p =
     (if (case r_comparePrice p of None \<Rightarrow> False | Some c \<Rightarrow> c \<noteq> 0 \<and> c > r_price p)
      then Sale
      else if (case r_createdAt p of
                 None \<Rightarrow> False
               | Some s \<Rightarrow> s \<noteq> [] \<and>
                   (case newDate dateParse s of
                      None \<Rightarrow> False
                    | Some created \<Rightarrow> created > thirtyDaysAgo))
      then New
      else NoBadge)"

text \<open>\<open>x || d\<close> on an optional string.\<close>

definition orElse :: "jsstring option \<Rightarrow> jsstring \<Rightarrow> jsstring" where
  "orElse x d = (case x of None \<Rightarrow> d | Some s \<Rightarrow> if s = [] then d else s)"

definition orNull :: "jsstring option \<Rightarrow> jsstring option" where
  "orNull x = (case x of None \<Rightarrow> None | Some s \<Rightarrow> if s = [] then None else Some s)"

definition placeholderImage :: jsstring where
  "placeholderImage = js ''https://placehold.co/600x800/e8eaed/6b7280?text=No+Image''"

text \<open>The callback of \<open>raw.map\<close>: \<open>None\<close> when \<open>parseTags\<close> throws.\<close>

definition normalize ::
  "(jsstring \<Rightarrow> int option) \<Rightarrow> int \<Rightarrow> nat \<Rightarrow> raw_product \<Rightarrow> product option" where
  "normalize dateParse thirtyDaysAgo index p =
     (case parseTags (case r_tags p of None \<Rightarrow> [] | Some ts \<Rightarrow> ts) of
        None \<Rightarrow> None
      | Some parsed \<Rightarrow>
          Some \<lparr> id_p = r_id p,
                 handle = r_handle p,
                 name_p = r_name p,
                 vendor = orElse (r_vendor p) [],
                 url = orElse (r_url p) (js ''/products/'' @ r_handle p),
                 price = r_price p,
                 comparePrice = r_comparePrice p,
                 available = r_available p,
                 image_p = orElse (r_image p) placeholderImage,
                 imageAlt = (case orNull (r_imageAlt p) of
                               None \<Rightarrow> orNull (r_image p) | Some s \<Rightarrow> Some s),
                 rawTags = (case r_tags p of None \<Rightarrow> [] | Some ts \<Rightarrow> ts),
                 parsedTags = parsed,
                 type_p = orElse (r_type p) [],
                 createdAt = orElse (r_createdAt p) [],
                 variants = (case r_variants p of None \<Rightarrow> [] | Some vs \<Rightarrow> vs),
                 featured = index,
                 badge = getBadge dateParse thirtyDaysAgo p \<rparr>)"

text \<open>\<open>raw.map\<close> with the index: the first entry that throws ends the loop.\<close>

fun mapEntries ::
  "(jsstring \<Rightarrow> int option) \<Rightarrow> int \<Rightarrow> nat \<Rightarrow> raw_product list \<Rightarrow> product list option" where
  "mapEntries dateParse thirtyDaysAgo index [] = Some []"
| "mapEntries dateParse thirtyDaysAgo index (p # raw) =
     (case normalize dateParse thirtyDaysAgo index p of
        None \<Rightarrow> None
      | Some x \<Rightarrow>
          (case mapEntries dateParse thirtyDaysAgo (Suc index) raw of
             None \<Rightarrow> None
           | Some xs \<Rightarrow> Some (x # xs)))"

text \<open>
  \<open>loadShopifyProducts\<close>. The element's text is \<open>None\<close> when the element is missing.
  \<open>jsonParse\<close> is the platform's parser read at the feed's type: \<open>None\<close> when
  \<open>JSON.parse\<close> throws or its result is not an array of product entries, so that reading
  it throws. Every throw inside the \<open>try\<close> block ends in the \<open>catch\<close>. The second
  component is what went to \<open>console.error\<close>.
\<close>

definition parseFailure :: jsstring where
  "parseFailure = js ''Shop page: failed to parse product data''"

definition loadShopifyProducts ::
  "(jsstring \<Rightarrow> raw_product list option) \<Rightarrow> (jsstring \<Rightarrow> int option) \<Rightarrow> int \<Rightarrow>
     jsstring option \<Rightarrow> product list \<times> jsstring list" where
  "loadShopifyProducts jsonParse dateParse thirtyDaysAgo el =
     (case el of
        None \<Rightarrow> ([], [])
      | Some textContent \<Rightarrow>
          (case jsonParse textContent of
             None \<Rightarrow> ([], [parseFailure])
           | Some raw \<Rightarrow>
               (case mapEntries dateParse thirtyDaysAgo 0 raw of
                  None \<Rightarrow> ([], [parseFailure])
                | Some products \<Rightarrow> (products, []))))"

subsection \<open>Filter taxonomy\<close>

definition PREFERRED_ORDER :: "jsstring list" where
  "PREFERRED_ORDER =
     map js [''Industry'', ''Protection'', ''Protection Type'', ''Cert Level'',
             ''Certification'', ''Material'', ''Gender'', ''Season'', ''Season & Feature'',
             ''Feature'']"

definition HIDDEN_CATEGORIES :: "jsstring list" where
  "HIDDEN_CATEGORIES = [js ''Other'']"

record filterGroup =
  key :: jsstring
  label :: jsstring
  values_g :: "jsstring list"

text \<open>
  The body of \<open>for (var cat in tags)\<close>: \<open>categoryMap[cat]\<close> is an object whose keys are the
  values seen. \<open>categoryMap[cat][val] = true\<close> stores an own property, except for the
  value \<open>__proto__\<close>: that assignment goes to the setter of the prototype, which ignores
  \<open>true\<close>, and no property is stored. For a category that is the name of an inherited
  member the values are written to that member and \<open>categoryMap\<close> stays as it is; no
  product that \<open>parseTags\<close> has built has such a category.
\<close>

definition innerOf :: "bool obj obj \<Rightarrow> jsstring \<Rightarrow> bool obj" where
  "innerOf categoryMap cat = (case map_of categoryMap cat of None \<Rightarrow> [] | Some m \<Rightarrow> m)"

definition setFlag :: "jsstring \<Rightarrow> bool obj \<Rightarrow> bool obj" where
  "setFlag val inner = (if val = js ''__proto__'' then inner else AList.update val True inner)"

definition collectCategory :: "jsstring list obj \<Rightarrow> jsstring \<Rightarrow> bool obj obj \<Rightarrow> bool obj obj" where
  "collectCategory tags cat categoryMap =
     (if cat \<in> set HIDDEN_CATEGORIES then categoryMap
      else
        (case getProp categoryMap cat of
           Inherited \<Rightarrow> categoryMap
         | Absent \<Rightarrow>
             fold (\<lambda>val cm. AList.update cat (setFlag val (innerOf cm cat)) cm)
               (case map_of tags cat of None \<Rightarrow> [] | Some vs \<Rightarrow> vs)
               (AList.update cat [] categoryMap)
         | Own _ \<Rightarrow>
             fold (\<lambda>val cm. AList.update cat (setFlag val (innerOf cm cat)) cm)
               (case map_of tags cat of None \<Rightarrow> [] | Some vs \<Rightarrow> vs)
               categoryMap))"

definition collectProduct :: "product \<Rightarrow> bool obj obj \<Rightarrow> bool obj obj" where
  "collectProduct product categoryMap =
     (let tags = parsedTags product
      in fold (collectCategory tags) (map fst tags) categoryMap)"

definition groupOf :: "bool obj obj \<Rightarrow> jsstring \<Rightarrow> filterGroup" where
  "groupOf categoryMap cat =
     \<lparr> key = cat, label = cat, values_g = sort (map fst (innerOf categoryMap cat)) \<rparr>"

text \<open>The two loops that emit the groups. Their keys are names of \<open>PREFERRED_ORDER\<close> and own
  keys of \<open>categoryMap\<close>, none of them an inherited name.\<close>

definition preferredStep ::
  "bool obj obj \<Rightarrow> jsstring \<Rightarrow> filterGroup list \<times> bool obj \<Rightarrow> filterGroup list \<times> bool obj" where
  "preferredStep categoryMap cat gu =
     (case gu of (groups, used) \<Rightarrow>
        (case map_of categoryMap cat of
           None \<Rightarrow> (groups, used)
         | Some _ \<Rightarrow> (groups @ [groupOf categoryMap cat], AList.update cat True used)))"

definition remainingStep ::
  "bool obj obj \<Rightarrow> bool obj \<Rightarrow> jsstring \<Rightarrow> filterGroup list \<Rightarrow> filterGroup list" where
  "remainingStep categoryMap used cat groups =
     (case map_of used cat of
        None \<Rightarrow> groups @ [groupOf categoryMap cat]
      | Some _ \<Rightarrow> groups)"

definition buildFilterGroups :: "product list \<Rightarrow> filterGroup list" where
  "buildFilterGroups products =
     (let categoryMap = fold collectProduct products [] in
      case fold (preferredStep categoryMap) PREFERRED_ORDER ([], []) of
        (groups, used) \<Rightarrow>
          fold (remainingStep categoryMap used) (sort (map fst categoryMap)) groups)"

text \<open>
  What the products show, for stating what the taxonomy must contain: the categories that
  occur as a key of some product's \<open>parsedTags\<close>, the hidden ones removed, and the values
  that some product carries under a category.
\<close>

definition seenCategories :: "product list \<Rightarrow> jsstring set" where
  "seenCategories products = (\<Union>p\<in>set products. fst ` set (parsedTags p)) - set HIDDEN_CATEGORIES"

definition seenValues :: "product list \<Rightarrow> jsstring \<Rightarrow> jsstring set" where
  "seenValues products cat = (\<Union>p\<in>set products. set (tagValues p cat))"

text \<open>An object has each of its keys once; so has every inner object of a category map.\<close>

definition ownKeysOnce :: "bool obj obj \<Rightarrow> bool" where
  "ownKeysOnce categoryMap \<longleftrightarrow>
     distinct (map fst categoryMap) \<and> (\<forall>cat. distinct (map fst (innerOf categoryMap cat)))"

subsection \<open>State and URL parameters\<close>

definition COLLECTION_MAP :: "(jsstring \<times> jsstring) obj" where
  "COLLECTION_MAP =
     map (\<lambda>(alias, k, v). (js alias, (js k, js v)))
       [(''hi-vis'', ''Protection'', ''Hi-Vis''),
        (''welding'', ''Industry'', ''Welding''),
        (''chemical'', ''Industry'', ''Chemical''),
        (''oil-gas'', ''Industry'', ''Oil & Gas''),
        (''manufacturing'', ''Industry'', ''Manufacturing''),
        (''automotive'', ''Industry'', ''Automotive''),
        (''construction'', ''Industry'', ''Construction''),
        (''railway'', ''Industry'', ''Railway''),
        (''electricians'', ''Industry'', ''Electricians''),
        (''flame-resistant'', ''Protection'', ''Flame Resistant''),
        (''arc-flash'', ''Protection'', ''Arc Flash''),
        (''winter'', ''Season'', ''Winter''),
        (''summer'', ''Season'', ''Summer'')]"

definition ITEMS_PER_PAGE :: nat where
  "ITEMS_PER_PAGE = 12"

record app_state =
  activeFilters :: "jsval list obj"
  sortKey_s :: jsstring
  collection :: "jsstring option"
  highlightProduct :: "jsstring option"
  currentPage :: nat

definition initialState :: app_state where
  "initialState =
     \<lparr> activeFilters = [], sortKey_s = js ''featured'', collection = None,
       highlightProduct = None, currentPage = 1 \<rparr>"

text \<open>
  \<open>URLSearchParams\<close> is the list of its name-value pairs, which is what the query string
  serialises and what parsing the query string gives back: \<open>get\<close> gives the first value
  of a name, \<open>set\<close> overwrites the first pair of a name and removes its other pairs, or
  appends. Both take their arguments as scalar value strings: \<open>toUSV\<close> replaces every
  surrogate code unit that is not part of a pair by U+FFFD.
\<close>

type_synonym params = "(jsstring \<times> jsstring) list"

definition isHigh :: "nat \<Rightarrow> bool" where
  "isHigh u \<longleftrightarrow> 0xD800 \<le> u \<and> u \<le> 0xDBFF"

definition isLow :: "nat \<Rightarrow> bool" where
  "isLow u \<longleftrightarrow> 0xDC00 \<le> u \<and> u \<le> 0xDFFF"

fun toUSV :: "jsstring \<Rightarrow> jsstring" where
  "toUSV [] = []"
| "toUSV [x] = (if isHigh x \<or> isLow x then [0xFFFD] else [x])"
| "toUSV (x # y # zs) =
     (if isHigh x then (if isLow y then x # y # toUSV zs else 0xFFFD # toUSV (y # zs))
      else if isLow x then 0xFFFD # toUSV (y # zs)
      else x # toUSV (y # zs))"

definition paramsGet :: "params \<Rightarrow> jsstring \<Rightarrow> jsstring option" where
  "paramsGet ps name = map_of ps (toUSV name)"

fun setPair :: "jsstring \<Rightarrow> jsstring \<Rightarrow> params \<Rightarrow> params" where
  "setPair k v [] = [(k, v)]"
| "setPair k v (p # ps) =
     (if fst p = k then (k, v) # filter (\<lambda>q. fst q \<noteq> k) ps else p # setPair k v ps)"

definition paramsSet :: "jsstring \<Rightarrow> jsstring \<Rightarrow> params \<Rightarrow> params" where
  "paramsSet name v ps = setPair (toUSV name) (toUSV v) ps"

text \<open>\<open>split\<close> and \<open>join\<close> on a separator of one code unit; the comma is 44. \<open>join\<close> writes
  an element that is \<open>undefined\<close> as the empty string.\<close>

fun splitOn :: "nat \<Rightarrow> jsstring \<Rightarrow> jsstring list" where
  "splitOn c [] = [[]]"
| "splitOn c (x # xs) =
     (if x = c then [] # splitOn c xs
      else (case splitOn c xs of [] \<Rightarrow> [[x]] | w # ws \<Rightarrow> (x # w) # ws))"

definition textOf :: "jsval \<Rightarrow> jsstring" where
  "textOf v = (case v of Undefined \<Rightarrow> [] | Str s \<Rightarrow> s)"

fun joinWith :: "nat \<Rightarrow> jsstring list \<Rightarrow> jsstring" where
  "joinWith c [] = []"
| "joinWith c [x] = x"
| "joinWith c (x # y # ys) = x @ c # joinWith c (y # ys)"

definition joinValues :: "jsval list \<Rightarrow> jsstring" where
  "joinValues vs = joinWith 44 (map textOf vs)"

definition readGroup :: "params \<Rightarrow> filterGroup \<Rightarrow> jsval list obj \<Rightarrow> jsval list obj" where
  "readGroup ps grp af =
     (case paramsGet ps (key grp) of
        None \<Rightarrow> af
      | Some val \<Rightarrow> if val = [] then af else AList.update (key grp) (map Str (splitOn 44 val)) af)"

text \<open>
  The collection pre-filter. For an alias of the map, \<open>mapping\<close> is its entry. For the name
  of an inherited member \<open>COLLECTION_MAP[state.collection]\<close> is that member, which is truthy;
  its \<open>key\<close> and \<open>value\<close> are \<open>undefined\<close>, so the filter key is the string \<open>undefined\<close> and
  the seeded selection is \<open>[undefined]\<close>.
\<close>

definition applyCollection :: "app_state \<Rightarrow> app_state" where
  "applyCollection st =
     (case collection st of
        None \<Rightarrow> st
      | Some c \<Rightarrow>
          if c = [] then st
          else (case getProp COLLECTION_MAP c of
                  Absent \<Rightarrow> st
                | Own (mkey, mvalue) \<Rightarrow>
                    if \<not> hasSelection (activeFilters st) mkey
                    then st\<lparr>activeFilters := AList.update mkey [Str mvalue] (activeFilters st)\<rparr>
                    else st
                | Inherited \<Rightarrow>
                    if \<not> hasSelection (activeFilters st) (js ''undefined'')
                    then st\<lparr>activeFilters :=
                              AList.update (js ''undefined'') [Undefined] (activeFilters st)\<rparr>
                    else st))"

definition readURLParams :: "filterGroup list \<Rightarrow> params \<Rightarrow> app_state \<Rightarrow> app_state" where
  "readURLParams FILTER_GROUPS ps st =
     (let st1 = st\<lparr>collection := orNull (paramsGet ps (js ''collection''))\<rparr>;
          st2 = st1\<lparr>highlightProduct := orNull (paramsGet ps (js ''product''))\<rparr>;
          st3 = st2\<lparr>sortKey_s := orElse (paramsGet ps (js ''sort'')) (js ''featured'')\<rparr>;
          st4 = st3\<lparr>activeFilters := fold (readGroup ps) FILTER_GROUPS []\<rparr>
      in applyCollection st4)"

definition writeGroup :: "app_state \<Rightarrow> filterGroup \<Rightarrow> params \<Rightarrow> params" where
  "writeGroup st grp ps =
     (if hasSelection (activeFilters st) (key grp)
      then paramsSet (key grp) (joinValues (selectionOf (activeFilters st) (key grp))) ps
      else ps)"

text \<open>\<open>writeURLParams\<close> gives the parameters whose serialisation replaces the query string;
  the state is not changed.\<close>

definition writeURLParams :: "filterGroup list \<Rightarrow> app_state \<Rightarrow> params" where
  "writeURLParams FILTER_GROUPS st =
     (let ps0 = [];
          ps1 = (case orNull (collection st) of
                   None \<Rightarrow> ps0
                 | Some c \<Rightarrow> paramsSet (js ''collection'') c ps0);
          ps2 = (if sortKey_s st \<noteq> [] \<and> sortKey_s st \<noteq> js ''featured''
                 then paramsSet (js ''sort'') (sortKey_s st) ps1 else ps1)
      in fold (writeGroup st) FILTER_GROUPS ps2)"

text \<open>The codec at page load: the state object starts as \<open>initialState\<close>.\<close>

definition decode :: "filterGroup list \<Rightarrow> params \<Rightarrow> app_state" where
  "decode FILTER_GROUPS ps = readURLParams FILTER_GROUPS ps initialState"

definition encode :: "filterGroup list \<Rightarrow> app_state \<Rightarrow> params" where
  "encode FILTER_GROUPS st = writeURLParams FILTER_GROUPS st"






subsection \<open>Rendering and the update cycle\<close>

text \<open>
  What \<open>renderGrid\<close> leaves on the page: the cards in the grid and whether the grid, the
  empty state and the pagination block (with the load-more button) are displayed; \<open>None\<close>
  when the grid element is missing and nothing is rendered. The function also consumes
  \<open>highlightProduct\<close>, so it returns the state. It looks the highlighted card up with a
  selector built from the identifier as it is; \<open>querySelector\<close> throws a \<open>SyntaxError\<close>
  when the platform's parser rejects the selector, after the page has been written and
  before the state is. The third component is the exception that leaves the function.
\<close>

record grid_view =
  cards :: "product list"
  gridShown :: bool
  emptyShown :: bool
  paginationShown :: bool

text \<open>The double quote is code unit 34.\<close>

definition highlightSelector :: "jsstring \<Rightarrow> jsstring" where
  "highlightSelector h = js ''[data-product-id='' @ [34] @ h @ [34] @ js '']''"

definition renderGrid ::
  "(jsstring \<Rightarrow> bool) \<Rightarrow> bool \<Rightarrow> app_state \<Rightarrow> product list \<Rightarrow>
     grid_view option \<times> app_state \<times> js_error option" where
  "renderGrid selectorParses hasGrid st products =
     (if \<not> hasGrid then (None, st, None)
      else if length products = 0
      then (Some \<lparr> cards = [], gridShown = False, emptyShown = True, paginationShown = False \<rparr>,
            st, None)
      else
        let visibleProducts = take (currentPage st * ITEMS_PER_PAGE) products;
            hasMore = length visibleProducts < length products;
            view = \<lparr> cards = visibleProducts, gridShown = True, emptyShown = False,
                     paginationShown = hasMore \<rparr>
        in (case orNull (highlightProduct st) of
              None \<Rightarrow> (Some view, st, None)
            | Some h \<Rightarrow>
                if selectorParses (highlightSelector h)
                then (Some view, st\<lparr>highlightProduct := None\<rparr>, None)
                else (Some view, st, Some SyntaxError)))"

text \<open>The page: the loaded products, the platform's date parser, sort engine and selector
  parser, and whether the grid element exists.\<close>

record page =
  PRODUCTS :: "product list"
  dateParse_p :: "jsstring \<Rightarrow> int option"
  sortEngine_p :: sort_engine
  selectorParses_p :: "jsstring \<Rightarrow> bool"
  hasGrid_p :: bool

text \<open>\<open>update\<close>: of the render functions only \<open>renderGrid\<close> writes to the state, and what
  follows it writes to the page and the address bar only.\<close>

definition update :: "page \<Rightarrow> app_state \<Rightarrow> grid_view option \<times> app_state \<times> js_error option" where
  "update pg st =
     (let filtered = filterProducts (PRODUCTS pg) (activeFilters st);
          sortedArr = sortProducts (sortEngine_p pg) (dateParse_p pg) filtered (sortKey_s st)
      in renderGrid (selectorParses_p pg) (hasGrid_p pg) st sortedArr)"

definition clearAllFilters ::
  "page \<Rightarrow> app_state \<Rightarrow> grid_view option \<times> app_state \<times> js_error option" where
  "clearAllFilters pg st =
     (let st1 = st\<lparr>activeFilters := []\<rparr>;
          st2 = st1\<lparr>collection := None\<rparr>;
          st3 = st2\<lparr>currentPage := 1\<rparr>
      in update pg st3)"

text \<open>The load-more button: next page, then the grid again.\<close>

definition loadMore :: "page \<Rightarrow> app_state \<Rightarrow> grid_view option \<times> app_state \<times> js_error option" where
  "loadMore pg st =
     (let st1 = st\<lparr>currentPage := currentPage st + 1\<rparr>;
          filtered = filterProducts (PRODUCTS pg) (activeFilters st1);
          sortedArr = sortProducts (sortEngine_p pg) (dateParse_p pg) filtered (sortKey_s st1)
      in renderGrid (selectorParses_p pg) (hasGrid_p pg) st1 sortedArr)"

subsection \<open>A small catalog for worked examples\<close>

definition exampleDateParse :: "jsstring \<Rightarrow> int option" where
  "exampleDateParse s =
     (if s = js ''2024-01-01T00:00:00Z'' then Some 1704067200000
      else if s = js ''2023-01-01T00:00:00Z'' then Some 1672531200000
      else None)"

definition exampleRaw ::
  "string \<Rightarrow> nat \<Rightarrow> nat option \<Rightarrow> string option \<Rightarrow> string list \<Rightarrow> raw_product" where
  "exampleRaw i pr cp created tags =
     \<lparr> r_id = js i, r_handle = js i, r_name = js i, r_vendor = None, r_url = None,
       r_price = pr, r_comparePrice = cp, r_available = True, r_image = None,
       r_imageAlt = None, r_tags = Some (map js tags), r_type = None,
       r_createdAt = map_option js created, r_variants = None \<rparr>"

text \<open>The products that the loader makes of five entries.\<close>

definition exA :: product where
  "exA = the (normalize exampleDateParse 0 0 (exampleRaw ''A'' 10 None None [''Industry: Welding'']))"

definition exB :: product where
  "exB = the (normalize exampleDateParse 0 1
           (exampleRaw ''B'' 20 None (Some ''2024-01-01T00:00:00Z'') [''Industry: Chemical'']))"

definition exC :: product where
  "exC = the (normalize exampleDateParse 0 2
           (exampleRaw ''C'' 15 None (Some ''2023-01-01T00:00:00Z'')
              [''Industry: Welding'', ''Gender: Men'']))"

definition exD :: product where
  "exD = the (normalize exampleDateParse 0 3 (exampleRaw ''D'' 15 (Some 30) None [''Hi-Vis'']))"

definition exZ :: product where
  "exZ = the (normalize exampleDateParse 0 4
           (exampleRaw ''Z'' 5 None None [''Zebra: Stripes'', ''Alpha: One'', ''Industry: Welding'']))"

definition exampleCatalog :: "product list" where
  "exampleCatalog = [exA, exB, exC, exD, exZ]"

text \<open>A product with the value \<open>__proto__\<close> under \<open>Industry\<close>.\<close>

definition exP :: product where
  "exP = the (normalize exampleDateParse 0 0
           (exampleRaw ''P'' 10 None None [''Industry: __proto__'', ''Industry: Welding'']))"

text \<open>Products that differ in their place in the feed and their date only.\<close>

definition undated :: "nat \<Rightarrow> product" where
  "undated index = the (normalize exampleDateParse 0 index (exampleRaw ''S'' 10 None None []))"

definition dated2023 :: "nat \<Rightarrow> product" where
  "dated2023 index =
     the (normalize exampleDateParse 0 index
            (exampleRaw ''S'' 10 None (Some ''2023-01-01T00:00:00Z'') []))"

definition dated2024 :: "nat \<Rightarrow> product" where
  "dated2024 index =
     the (normalize exampleDateParse 0 index
            (exampleRaw ''S'' 10 None (Some ''2024-01-01T00:00:00Z'') []))"

text \<open>Feed texts standing for the JSON array of three entries and for an array of two
  entries of which the second has the tag \<open>constructor: x\<close>, and a parser that reads these
  and the empty array and rejects every other text.\<close>

definition exampleFeedText :: jsstring where
  "exampleFeedText = js ''[A, B, C]''"

definition exampleFeedInherited :: jsstring where
  "exampleFeedInherited = js ''[A, X]''"

definition exampleJsonParse :: "jsstring \<Rightarrow> raw_product list option" where
  "exampleJsonParse s =
     (if s = exampleFeedText
      then Some [exampleRaw ''A'' 10 None None [''Industry: Welding''],
                 exampleRaw ''B'' 20 None (Some ''2024-01-01T00:00:00Z'') [''Industry: Chemical''],
                 exampleRaw ''C'' 15 None (Some ''2023-01-01T00:00:00Z'')
                   [''Industry: Welding'', ''Gender: Men'']]
      else if s = exampleFeedInherited
      then Some [exampleRaw ''A'' 10 None None [''Industry: Welding''],
                 exampleRaw ''X'' 10 None None [''constructor: x'']]
      else if s = js ''[]'' then Some []
      else None)"

text \<open>A selector parser that accepts the attribute selectors of \<open>highlightSelector\<close> whose
  quoted value has no double quote, backslash or line break in it.\<close>

definition exampleSelectorParses :: "jsstring \<Rightarrow> bool" where
  "exampleSelectorParses sel \<longleftrightarrow>
     20 \<le> length sel
     \<and> take 18 sel = js ''[data-product-id='' @ [34]
     \<and> drop (length sel - 2) sel = [34] @ js '']''
     \<and> list_all (\<lambda>u. u \<notin> set [34, 92, 10, 12, 13]) (take (length sel - 20) (drop 18 sel))"

definition examplePage :: page where
  "examplePage =
     \<lparr> PRODUCTS = [exA, exB, exC], dateParse_p = exampleDateParse, sortEngine_p = v8SortShort,
       selectorParses_p = exampleSelectorParses, hasGrid_p = True \<rparr>"

text \<open>The state after \<open>?product=A&Industry=Railway\<close> has been read: no product matches.\<close>

definition exampleState :: app_state where
  "exampleState =
     \<lparr> activeFilters = [(js ''Industry'', [Str (js ''Railway'')])], sortKey_s = js ''price-asc'',
       collection = None, highlightProduct = Some (js ''A''), currentPage = 1 \<rparr>"

definition exampleGroups :: "filterGroup list" where
  "exampleGroups = buildFilterGroups exampleCatalog"

text \<open>A state in which two groups have selections, and the state left when the visitor of
  \<open>?collection=welding\<close> has unchecked the seeded value.\<close>

definition exampleSelected :: app_state where
  "exampleSelected =
     \<lparr> activeFilters = [(js ''Industry'', [Str (js ''Welding''), Str (js ''Chemical'')]),
                        (js ''Gender'', [Str (js ''Men'')])],
       sortKey_s = js ''price-asc'', collection = Some (js ''welding''),
       highlightProduct = Some (js ''A''), currentPage = 3 \<rparr>"

definition exampleUnchecked :: app_state where
  "exampleUnchecked =
     \<lparr> activeFilters = [(js ''Industry'', [])], sortKey_s = js ''featured'',
       collection = Some (js ''welding''), highlightProduct = None, currentPage = 1 \<rparr>"


section \<open>Properties\<close>

subsection \<open>The example catalog, evaluated\<close>

lemma js_eq_iff: "js a = js b \<longleftrightarrow> a = b"
  unfolding js_def by (simp add: inj_map_eq_map [OF inj_of_char])

lemma js_Nil_iff: "js s = [] \<longleftrightarrow> s = []"
  by (simp add: js_def)

lemmas example_eval = normalize_def exampleRaw_def parseTags_def parseTagStep_def splitTag_def
  trim_def isSpace_def orElse_def orNull_def getProp_def inheritedNames_def js_def

text \<open>They are what \<open>normalize\<close> returns for the entries.\<close>

lemma example_normalized:
  "normalize exampleDateParse 0 0 (exampleRaw ''A'' 10 None None [''Industry: Welding'']) = Some exA"
  "normalize exampleDateParse 0 1
     (exampleRaw ''B'' 20 None (Some ''2024-01-01T00:00:00Z'') [''Industry: Chemical'']) = Some exB"
  "normalize exampleDateParse 0 2
     (exampleRaw ''C'' 15 None (Some ''2023-01-01T00:00:00Z'') [''Industry: Welding'', ''Gender: Men''])
     = Some exC"
  "normalize exampleDateParse 0 3 (exampleRaw ''D'' 15 (Some 30) None [''Hi-Vis'']) = Some exD"
  "normalize exampleDateParse 0 4
     (exampleRaw ''Z'' 5 None None [''Zebra: Stripes'', ''Alpha: One'', ''Industry: Welding''])
     = Some exZ"
  "normalize exampleDateParse 0 0
     (exampleRaw ''P'' 10 None None [''Industry: __proto__'', ''Industry: Welding'']) = Some exP"
  by (simp_all add: exA_def exB_def exC_def exD_def exZ_def exP_def example_eval)

lemma exA_fields:
  "parsedTags exA = [(js ''Industry'', [js ''Welding''])]" "price exA = 10" "createdAt exA = []"
  "featured exA = 0"
  by (simp_all add: exA_def example_eval)

lemma exB_fields:
  "parsedTags exB = [(js ''Industry'', [js ''Chemical''])]" "price exB = 20"
  "createdAt exB = js ''2024-01-01T00:00:00Z''" "featured exB = 1"
  by (simp_all add: exB_def example_eval)

lemma exC_fields:
  "parsedTags exC = [(js ''Industry'', [js ''Welding'']), (js ''Gender'', [js ''Men''])]"
  "price exC = 15" "createdAt exC = js ''2023-01-01T00:00:00Z''" "featured exC = 2"
  by (simp_all add: exC_def example_eval)

lemma exD_fields:
  "parsedTags exD = [(js ''Other'', [js ''Hi-Vis''])]" "price exD = 15" "createdAt exD = []"
  "featured exD = 3"
  by (simp_all add: exD_def example_eval)

lemma exZ_fields:
  "parsedTags exZ =
     [(js ''Zebra'', [js ''Stripes'']), (js ''Alpha'', [js ''One'']), (js ''Industry'', [js ''Welding''])]"
  "price exZ = 5" "createdAt exZ = []" "featured exZ = 4"
  by (simp_all add: exZ_def example_eval)

lemma exP_fields:
  "parsedTags exP = [(js ''Industry'', [js ''__proto__'', js ''Welding''])]"
  by (simp add: exP_def example_eval)

lemma undated_fields: "createdAt (undated i) = []" "featured (undated i) = i"
  by (simp_all add: undated_def example_eval)

lemma dated_fields:
  "createdAt (dated2023 i) = js ''2023-01-01T00:00:00Z''" "featured (dated2023 i) = i"
  "createdAt (dated2024 i) = js ''2024-01-01T00:00:00Z''" "featured (dated2024 i) = i"
  by (simp_all add: dated2023_def dated2024_def example_eval)

lemma ex_distinct: "exA \<noteq> exB" "exA \<noteq> exC" "exB \<noteq> exC" "exB \<noteq> exA" "exC \<noteq> exA" "exC \<noteq> exB"
  using exA_fields(2) exB_fields(2) exC_fields(2) by auto

lemma ex_distinct_D: "exD \<noteq> exA" "exD \<noteq> exB" "exD \<noteq> exC" "exA \<noteq> exD" "exB \<noteq> exD" "exC \<noteq> exD"
  using exA_fields(4) exB_fields(4) exC_fields(4) exD_fields(4) by auto

subsection \<open>Filtering\<close>

lemma matchLoop_iff: "matchLoop pv sel \<longleftrightarrow> (\<exists>s. Str s \<in> set sel \<and> s \<in> set pv)"
  by (induction sel) (auto simp: inArray_def split: jsval.splits)

lemma hasSelection_iff:
  "hasSelection F k \<longleftrightarrow> (\<exists>vs. map_of F k = Some vs \<and> vs \<noteq> [])"
  by (auto simp: hasSelection_def split: option.splits)

lemma set_activeKeysOf: "set (activeKeysOf F) = {k. hasSelection F k}"
  by (auto simp: activeKeysOf_def hasSelection_def split: option.splits dest: map_of_SomeD
      intro: rev_image_eqI)

lemma matchesAll_iff:
  "list_all (\<lambda>key. productMatchesGroup p key (selectionOf F key)) (activeKeysOf F) \<longleftrightarrow>
   (\<forall>k vs. map_of F k = Some vs \<and> vs \<noteq> [] \<longrightarrow> productMatchesGroup p k vs)"
  by (auto simp: list_all_iff set_activeKeysOf hasSelection_iff selectionOf_def)

lemma filterProducts_filter:
  "filterProducts P F =
     filter (\<lambda>p. \<forall>k vs. map_of F k = Some vs \<and> vs \<noteq> [] \<longrightarrow> productMatchesGroup p k vs) P"
proof (cases "activeKeysOf F = []")
  case True
  then have "{k. hasSelection F k} = {}"
    using set_activeKeysOf [of F] by simp
  then have "\<And>k vs. map_of F k = Some vs \<Longrightarrow> vs = []"
    by (auto simp: hasSelection_iff)
  then have "filter (\<lambda>p. \<forall>k vs. map_of F k = Some vs \<and> vs \<noteq> [] \<longrightarrow> productMatchesGroup p k vs) P = P"
    by (auto simp: filter_id_conv)
  with True show ?thesis by (simp add: filterProducts_def)
next
  case False
  then show ?thesis
    by (simp add: filterProducts_def Let_def matchesAll_iff)
qed

lemma productMatchesGroup_iff:
  "productMatchesGroup p k vs \<longleftrightarrow>
     (\<exists>s vals. Str s \<in> set vs \<and> map_of (parsedTags p) k = Some vals \<and> s \<in> set vals)"
  by (cases "map_of (parsedTags p) k") (auto simp: productMatchesGroup_def matchLoop_iff tagValues_def)



subsection \<open>Counts per filter value\<close>

lemma map_of_fold_update:
  "map_of (fold (\<lambda>k acc. if c k then AList.update k (f k) acc else acc) ks acc0) k =
     (if k \<in> set ks \<and> c k then Some (f k) else map_of acc0 k)"
  by (induction ks arbitrary: acc0) (auto simp: update_conv')

lemma map_of_otherFiltersOf:
  "map_of (otherFiltersOf F G) k = (if k \<noteq> G \<and> hasSelection F k then map_of F k else None)"
  unfolding otherFiltersOf_def map_of_fold_update
  by (auto simp: hasSelection_def selectionOf_def split: option.splits dest: map_of_SomeD
      intro: rev_image_eqI)

lemma countForValue_count:
  "countForValue P F G v =
     length (filter (\<lambda>p. v \<in> set (tagValues p G) \<and>
       (\<forall>k vs. k \<noteq> G \<and> map_of F k = Some vs \<and> vs \<noteq> [] \<longrightarrow> productMatchesGroup p k vs)) P)"
proof -
  have "(\<forall>k vs. map_of (otherFiltersOf F G) k = Some vs \<and> vs \<noteq> [] \<longrightarrow> productMatchesGroup p k vs)
      \<longleftrightarrow> (\<forall>k vs. k \<noteq> G \<and> map_of F k = Some vs \<and> vs \<noteq> [] \<longrightarrow> productMatchesGroup p k vs)" for p
    by (auto simp: map_of_otherFiltersOf hasSelection_iff)
  then show ?thesis
    by (simp add: countForValue_def Let_def filterProducts_filter conj_commute)
qed

lemma countForValue_explicit:
  "countForValue P F G v =
     length (filter (\<lambda>p.
       (\<exists>vals. map_of (parsedTags p) G = Some vals \<and> v \<in> set vals) \<and>
       (\<forall>k vs. k \<noteq> G \<and> map_of F k = Some vs \<and> vs \<noteq> [] \<longrightarrow>
          (\<exists>s vals. Str s \<in> set vs \<and> map_of (parsedTags p) k = Some vals \<and> s \<in> set vals))) P)"
proof -
  have "v \<in> set (tagValues p G) \<longleftrightarrow> (\<exists>vals. map_of (parsedTags p) G = Some vals \<and> v \<in> set vals)"
    for p
    by (cases "map_of (parsedTags p) G") (auto simp: tagValues_def)
  then show ?thesis
    unfolding countForValue_count productMatchesGroup_iff by simp
qed

text \<open>
  Claim C2. \<open>countForValue\<close> counts the products that have the value among their values
  for the group and that, for every other group with a non-empty selection, have one of
  the selected values among their values for that group. Two filter objects that agree
  on every other group give the same count, whatever each holds for the group itself.
\<close>

theorem countForValue_spec:
  "countForValue P F G v =
     length (filter (\<lambda>p.
       (\<exists>vals. map_of (parsedTags p) G = Some vals \<and> v \<in> set vals) \<and>
       (\<forall>k vs. k \<noteq> G \<and> map_of F k = Some vs \<and> vs \<noteq> [] \<longrightarrow>
          (\<exists>s vals. Str s \<in> set vs \<and> map_of (parsedTags p) k = Some vals \<and> s \<in> set vals))) P)
   \<and> ((\<forall>k. k \<noteq> G \<longrightarrow> map_of F' k = map_of F k) \<longrightarrow>
        countForValue P F' G v = countForValue P F G v)"
proof -
  have "countForValue P F' G v = countForValue P F G v"
    if "\<forall>k. k \<noteq> G \<longrightarrow> map_of F' k = map_of F k"
    using that unfolding countForValue_count
    by (intro arg_cong [where f = length] filter_cong) auto
  then show ?thesis using countForValue_explicit by blast
qed

theorem countForValue_spec_witness:
  "countForValue [exA, exB, exC] [(js ''Industry'', [Str (js ''Welding'')])] (js ''Gender'') (js ''Men'') = 1
   \<and> countForValue [exA, exB, exC] [(js ''Industry'', [Str (js ''Chemical'')])] (js ''Gender'') (js ''Men'') = 0
   \<and> countForValue [exA, exB, exC] [(js ''Industry'', [Str (js ''Chemical'')])] (js ''Industry'') (js ''Welding'') = 2
   \<and> countForValue [exA, exB, exC] [(js ''Industry'', [Str (js ''Chemical''), Str (js ''Welding'')])]
       (js ''Industry'') (js ''Welding'') = 2"
proof -
  let ?F = "[(js ''Industry'', [Str (js ''Chemical'')])]"
  let ?F' = "[(js ''Industry'', [Str (js ''Chemical''), Str (js ''Welding'')])]"
  let ?spec = "\<lambda>F G v (p :: product).
       (\<exists>vals. map_of (parsedTags p) G = Some vals \<and> v \<in> set vals) \<and>
       (\<forall>k vs. k \<noteq> G \<and> map_of F k = Some vs \<and> vs \<noteq> [] \<longrightarrow>
          (\<exists>s vals. Str s \<in> set vs \<and> map_of (parsedTags p) k = Some vals \<and> s \<in> set vals))"
  have agree: "\<forall>k. k \<noteq> js ''Industry'' \<longrightarrow> map_of ?F' k = map_of ?F k"
    by simp
  have c1: "countForValue [exA, exB, exC] [(js ''Industry'', [Str (js ''Welding'')])] (js ''Gender'') (js ''Men'') = 1"
    by (simp add: countForValue_def otherFiltersOf_def filterProducts_def activeKeysOf_def
        hasSelection_def selectionOf_def productMatchesGroup_def tagValues_def inArray_def
        exA_fields exB_fields exC_fields js_eq_iff)
  have nA: "\<not> ?spec ?F (js ''Gender'') (js ''Men'') exA"
    by (simp add: exA_fields js_eq_iff)
  have nB: "\<not> ?spec ?F (js ''Gender'') (js ''Men'') exB"
    by (simp add: exB_fields js_eq_iff)
  have nC: "\<not> ?spec ?F (js ''Gender'') (js ''Men'') exC"
  proof
    assume "?spec ?F (js ''Gender'') (js ''Men'') exC"
    then have "\<forall>k vs. k \<noteq> js ''Gender'' \<and> map_of ?F k = Some vs \<and> vs \<noteq> [] \<longrightarrow>
          (\<exists>s vals. Str s \<in> set vs \<and> map_of (parsedTags exC) k = Some vals \<and> s \<in> set vals)"
      by (rule conjunct2)
    from this [rule_format, of "js ''Industry''" "[Str (js ''Chemical'')]"]
    show False
      by (simp add: exC_fields js_eq_iff)
  qed
  from countForValue_spec [of "[exA, exB, exC]" ?F "js ''Gender''" "js ''Men''"]
  have "countForValue [exA, exB, exC] ?F (js ''Gender'') (js ''Men'') =
          length (filter (?spec ?F (js ''Gender'') (js ''Men'')) [exA, exB, exC])"
    by (rule conjunct1)
  also have "\<dots> = 0"
    using nA nB nC by (simp del: map_of.simps)
  finally have c0: "countForValue [exA, exB, exC] ?F (js ''Gender'') (js ''Men'') = 0" .
  have c2: "countForValue [exA, exB, exC] ?F (js ''Industry'') (js ''Welding'') = 2"
    by (simp add: countForValue_def otherFiltersOf_def filterProducts_def activeKeysOf_def
        hasSelection_def selectionOf_def productMatchesGroup_def tagValues_def inArray_def
        exA_fields exB_fields exC_fields js_eq_iff)
  from countForValue_spec [of "[exA, exB, exC]" ?F "js ''Industry''" "js ''Welding''" ?F'] agree
  have "countForValue [exA, exB, exC] ?F' (js ''Industry'') (js ''Welding'') =
        countForValue [exA, exB, exC] ?F (js ''Industry'') (js ''Welding'')"
    by blast
  with c1 c0 c2 show ?thesis by simp
qed

subsection \<open>Sorting\<close>

lemma mset_insertSorted: "mset (insertSorted cmp x ys) = add_mset x (mset ys)"
  by (induction ys) auto

lemma mset_stableSort: "mset (stableSort cmp xs) = mset xs"
  by (induction xs) (auto simp: stableSort_def mset_insertSorted)

lemma mset_arraySort: "mset (arraySort engine cmp xs) = mset xs"
  by (simp add: arraySort_def mset_stableSort)

lemma set_arraySort: "set (arraySort engine cmp xs) = set xs"
  using mset_arraySort [of engine cmp xs] by (metis set_mset_mset)

lemma length_arraySort: "length (arraySort engine cmp xs) = length xs"
  using mset_arraySort [of engine cmp xs] by (metis size_mset)

lemma length_sortProducts: "length (sortProducts engine dp ps k) = length ps"
  by (simp add: sortProducts_def length_arraySort)

lemma arraySort_consistent: "consistentOn cmp xs \<Longrightarrow> arraySort engine cmp xs = stableSort cmp xs"
  by (simp add: arraySort_def)

text \<open>On the store, for every sort key and every engine: the result is a new array, the
  arrays that existed keep their contents, and the new array holds the elements of the
  input.\<close>

lemma sortProducts_st_fresh:
  assumes "a < length h"
  shows "case sortProducts_st engine dp h a k of (r, h') \<Rightarrow>
           r \<noteq> a \<and> length h \<le> r \<and> r < length h'
         \<and> (\<forall>b<length h. h' ! b = h ! b)
         \<and> h' ! r = sortProducts engine dp (h ! a) k
         \<and> mset (h' ! r) = mset (h ! a)"
proof -
  let ?r = "length h"
  let ?h' = "(h @ [h ! a])[?r := arraySort engine (comparatorFor dp k) (h ! a)]"
  have eq: "sortProducts_st engine dp h a k = (?r, ?h')"
    by (simp add: sortProducts_st_def slice_st_def sort_st_def)
  have old: "\<forall>b<length h. ?h' ! b = h ! b"
    by (simp add: nth_append)
  show ?thesis
    unfolding eq using assms old
    by (simp add: sortProducts_def mset_arraySort)
qed

text \<open>The stable order keeps the input order of any two elements that compare equal.\<close>

lemma filter_insertSorted:
  assumes "Q x \<Longrightarrow> \<forall>y\<in>set ys. Q y \<longrightarrow> cmpValue (cmp x y) \<le> 0"
  shows "filter Q (insertSorted cmp x ys) = (if Q x then x # filter Q ys else filter Q ys)"
  using assms by (induction ys) auto

lemma filter_stableSort:
  assumes "\<And>x y. Q x \<Longrightarrow> Q y \<Longrightarrow> cmpValue (cmp x y) \<le> 0"
  shows "filter Q (stableSort cmp xs) = filter Q xs"
proof (induction xs)
  case Nil
  show ?case by (simp add: stableSort_def)
next
  case (Cons x xs)
  have step: "stableSort cmp (x # xs) = insertSorted cmp x (stableSort cmp xs)"
    by (simp add: stableSort_def)
  have "filter Q (insertSorted cmp x (stableSort cmp xs)) =
          (if Q x then x # filter Q (stableSort cmp xs) else filter Q (stableSort cmp xs))"
    by (rule filter_insertSorted) (simp add: assms)
  with Cons step show ?case by simp
qed

lemma comparatorFor_refl: "cmpValue (comparatorFor dp k x x) = 0"
  by (simp add: comparatorFor_def cmpValue_def numSub_def split: option.splits)

lemma stableSort_stable_pair:
  assumes "cmpValue (cmp x x) = 0" "cmpValue (cmp y y) = 0"
    "cmpValue (cmp x y) = 0" "cmpValue (cmp y x) = 0"
  shows "filter (\<lambda>z. z = x \<or> z = y) (stableSort cmp xs) = filter (\<lambda>z. z = x \<or> z = y) xs"
  by (rule filter_stableSort) (use assms in auto)

lemma sortProducts_stable:
  assumes "consistentOn (comparatorFor dp k) ps"
    and "cmpValue (comparatorFor dp k x y) = 0" "cmpValue (comparatorFor dp k y x) = 0"
  shows "filter (\<lambda>z. z = x \<or> z = y) (sortProducts engine dp ps k) = filter (\<lambda>z. z = x \<or> z = y) ps"
  unfolding sortProducts_def Let_def arraySort_consistent [OF assms(1)]
  by (rule stableSort_stable_pair) (simp_all add: comparatorFor_refl assms)

text \<open>A comparator that subtracts a number of the second element from that of the first
  is consistent.\<close>

lemma consistentOn_difference:
  assumes "\<And>a b. a \<in> set xs \<Longrightarrow> b \<in> set xs \<Longrightarrow> cmpValue (cmp a b) = f a - f b"
  shows "consistentOn cmp xs"
  unfolding consistentOn_def list_all_iff
  by (intro ballI conjI impI) (simp_all add: assms)

lemma consistentOn_fixed_keys:
  assumes "k \<noteq> js ''newest''"
  shows "consistentOn (comparatorFor dp k) ps"
proof -
  consider "k = js ''price-asc''" | "k = js ''price-desc''"
    | "k \<noteq> js ''price-asc''" "k \<noteq> js ''price-desc''"
    by blast
  then show ?thesis
  proof cases
    case 1
    show ?thesis
      by (rule consistentOn_difference [where f = "\<lambda>p. int (price p)"])
        (simp add: 1 comparatorFor_def cmpValue_def)
  next
    case 2
    show ?thesis
      by (rule consistentOn_difference [where f = "\<lambda>p. - int (price p)"])
        (simp add: 2 comparatorFor_def cmpValue_def js_eq_iff)
  next
    case 3
    show ?thesis
      by (rule consistentOn_difference [where f = "\<lambda>p. int (featured p)"])
        (simp add: 3 assms comparatorFor_def cmpValue_def)
  qed
qed

lemma newest_cmp:
  "comparatorFor dp (js ''newest'') a b =
     numSub (newDate dp (createdAt b)) (newDate dp (createdAt a))"
  by (simp add: comparatorFor_def js_eq_iff)

lemma consistentOn_newest_dated:
  assumes "\<forall>p\<in>set ps. newDate dp (createdAt p) \<noteq> None"
  shows "consistentOn (comparatorFor dp (js ''newest'')) ps"
proof (rule consistentOn_difference [where f = "\<lambda>p. - the (newDate dp (createdAt p))"])
  fix a b :: product
  assume "a \<in> set ps" "b \<in> set ps"
  with assms obtain x y where "newDate dp (createdAt a) = Some x" "newDate dp (createdAt b) = Some y"
    by blast
  then show "cmpValue (comparatorFor dp (js ''newest'') a b) =
      - the (newDate dp (createdAt a)) - - the (newDate dp (createdAt b))"
    by (simp add: newest_cmp numSub_def cmpValue_def)
qed

text \<open>With every sort key but \<open>newest\<close>, and with \<open>newest\<close> where every date parses, the
  order is the stable one on every engine.\<close>

lemma sortProducts_stable_fixed_keys:
  assumes "k \<noteq> js ''newest'' \<or> (\<forall>p\<in>set ps. newDate dp (createdAt p) \<noteq> None)"
    and "cmpValue (comparatorFor dp k x y) = 0" "cmpValue (comparatorFor dp k y x) = 0"
  shows "filter (\<lambda>z. z = x \<or> z = y) (sortProducts engine dp ps k) = filter (\<lambda>z. z = x \<or> z = y) ps"
proof -
  have "consistentOn (comparatorFor dp k) ps"
    using assms(1) consistentOn_fixed_keys [of k dp ps] consistentOn_newest_dated [of ps dp]
    by blast
  then show ?thesis using assms(2,3) by (rule sortProducts_stable)
qed

lemma set_insertSorted: "set (insertSorted cmp x ys) = insert x (set ys)"
  by (induction ys) auto

lemma set_stableSort: "set (stableSort cmp xs) = set xs"
  using mset_stableSort [of cmp xs] by (metis set_mset_mset)

lemma sorted_insertSorted:
  assumes total: "\<And>a b. a \<in> S \<Longrightarrow> b \<in> S \<Longrightarrow> 0 < cmpValue (cmp a b) \<Longrightarrow> cmpValue (cmp b a) \<le> 0"
    and trans: "\<And>a b c. a \<in> S \<Longrightarrow> b \<in> S \<Longrightarrow> c \<in> S \<Longrightarrow>
                  cmpValue (cmp a b) \<le> 0 \<Longrightarrow> cmpValue (cmp b c) \<le> 0 \<Longrightarrow> cmpValue (cmp a c) \<le> 0"
    and x: "x \<in> S"
    and ys: "set ys \<subseteq> S"
    and sorted: "sorted_wrt (\<lambda>a b. cmpValue (cmp a b) \<le> 0) ys"
  shows "sorted_wrt (\<lambda>a b. cmpValue (cmp a b) \<le> 0) (insertSorted cmp x ys)"
  using ys sorted
proof (induction ys)
  case Nil
  show ?case by simp
next
  case (Cons y ys)
  from Cons.prems have y: "y \<in> S" and ys: "set ys \<subseteq> S"
    and yle: "\<forall>z\<in>set ys. cmpValue (cmp y z) \<le> 0"
    and s: "sorted_wrt (\<lambda>a b. cmpValue (cmp a b) \<le> 0) ys"
    by simp_all
  show ?case
  proof (cases "cmpValue (cmp x y) \<le> 0")
    case True
    have "cmpValue (cmp x z) \<le> 0" if z: "z \<in> set ys" for z
    proof -
      from z ys have "z \<in> S" by blast
      moreover from z yle have "cmpValue (cmp y z) \<le> 0" by blast
      ultimately show ?thesis using trans [OF x y _ True] by blast
    qed
    then have "\<forall>z\<in>set ys. cmpValue (cmp x z) \<le> 0" by blast
    with True yle s show ?thesis by simp
  next
    case False
    then have "0 < cmpValue (cmp x y)" by simp
    from total [OF x y this] have yx: "cmpValue (cmp y x) \<le> 0" .
    have ih: "sorted_wrt (\<lambda>a b. cmpValue (cmp a b) \<le> 0) (insertSorted cmp x ys)"
      using Cons.IH [OF ys s] .
    have "\<forall>z\<in>set (insertSorted cmp x ys). cmpValue (cmp y z) \<le> 0"
      unfolding set_insertSorted using yx yle by blast
    with False ih show ?thesis by simp
  qed
qed

lemma sorted_stableSort:
  assumes total: "\<And>a b. a \<in> S \<Longrightarrow> b \<in> S \<Longrightarrow> 0 < cmpValue (cmp a b) \<Longrightarrow> cmpValue (cmp b a) \<le> 0"
    and trans: "\<And>a b c. a \<in> S \<Longrightarrow> b \<in> S \<Longrightarrow> c \<in> S \<Longrightarrow>
                  cmpValue (cmp a b) \<le> 0 \<Longrightarrow> cmpValue (cmp b c) \<le> 0 \<Longrightarrow> cmpValue (cmp a c) \<le> 0"
    and xs: "set xs \<subseteq> S"
  shows "sorted_wrt (\<lambda>a b. cmpValue (cmp a b) \<le> 0) (stableSort cmp xs)"
  using xs
proof (induction xs)
  case Nil
  show ?case by (simp add: stableSort_def)
next
  case (Cons x xs)
  have step: "stableSort cmp (x # xs) = insertSorted cmp x (stableSort cmp xs)"
    by (simp add: stableSort_def)
  from Cons.prems have x: "x \<in> S" and sub: "set (stableSort cmp xs) \<subseteq> S"
    by (simp_all add: set_stableSort)
  from Cons.prems have "set xs \<subseteq> S" by simp
  then have ih: "sorted_wrt (\<lambda>a b. cmpValue (cmp a b) \<le> 0) (stableSort cmp xs)"
    by (rule Cons.IH)
  show ?case
    unfolding step using total trans x sub ih by (rule sorted_insertSorted)
qed

text \<open>Where every product of the list has a date that parses, the result is in descending
  order of the dates, on every engine.\<close>

lemma sortProducts_newest_sorted:
  assumes "\<forall>p\<in>set ps. newDate dp (createdAt p) \<noteq> None"
  shows "sorted_wrt (\<lambda>a b. the (newDate dp (createdAt b)) \<le> the (newDate dp (createdAt a)))
           (sortProducts engine dp ps (js ''newest''))"
proof -
  define S where "S = {p :: product. newDate dp (createdAt p) \<noteq> None}"
  define cmp where "cmp = comparatorFor dp (js ''newest'')"
  have v: "cmpValue (cmp a b) = the (newDate dp (createdAt b)) - the (newDate dp (createdAt a))"
    if "a \<in> S" "b \<in> S" for a b :: product
    using that by (auto simp: S_def cmp_def newest_cmp cmpValue_def numSub_def)
  have sub: "set ps \<subseteq> S" using assms by (auto simp: S_def)
  have total: "cmpValue (cmp b a) \<le> 0" if "a \<in> S" "b \<in> S" "0 < cmpValue (cmp a b)" for a b
    using that v [of a b] v [of b a] by simp
  have trans: "cmpValue (cmp a c) \<le> 0"
    if "a \<in> S" "b \<in> S" "c \<in> S" "cmpValue (cmp a b) \<le> 0" "cmpValue (cmp b c) \<le> 0" for a b c
    using that v [of a b] v [of b c] v [of a c] by simp
  have s: "sorted_wrt (\<lambda>a b. cmpValue (cmp a b) \<le> 0) (stableSort cmp ps)"
    using total trans sub by (rule sorted_stableSort)
  have "the (newDate dp (createdAt y)) \<le> the (newDate dp (createdAt x))"
    if "x \<in> set (stableSort cmp ps)" "y \<in> set (stableSort cmp ps)" "cmpValue (cmp x y) \<le> 0" for x y
  proof -
    from that(1,2) sub have "x \<in> S" "y \<in> S" by (auto simp: set_stableSort)
    from v [OF this] that(3) show ?thesis by simp
  qed
  then have "sorted_wrt (\<lambda>a b. the (newDate dp (createdAt b)) \<le> the (newDate dp (createdAt a)))
      (stableSort cmp ps)"
    using s by (rule sorted_wrt_mono_rel)
  moreover have "consistentOn cmp ps"
    unfolding cmp_def using assms by (rule consistentOn_newest_dated)
  ultimately show ?thesis by (simp add: sortProducts_def cmp_def arraySort_consistent)
qed

lemma example_dates:
  "newDate exampleDateParse (createdAt (undated i)) = None"
  "newDate exampleDateParse (createdAt (dated2023 i)) = Some 1672531200000"
  "newDate exampleDateParse (createdAt (dated2024 i)) = Some 1704067200000"
  "newDate exampleDateParse (createdAt exA) = None"
  "newDate exampleDateParse (createdAt exB) = Some 1704067200000"
  "newDate exampleDateParse (createdAt exC) = Some 1672531200000"
  by (simp_all add: newDate_def exampleDateParse_def undated_fields dated_fields
      exA_fields exB_fields exC_fields js_eq_iff js_Nil_iff)

text \<open>
  Claim C3, evaluated where it fails. Under \<open>newest\<close> a product without a date is not
  compared as the oldest: the difference of its invalid date with any other date is
  \<open>NaN\<close>, the sort reads that as equal, and the product stays in front of the dated
  products it precedes in the input. For the undated product in front of one dated
  product the comparator is consistent and every engine returns the input order; with
  two dated products behind it the engine modelled here orders those two and leaves the
  undated product first.
\<close>

theorem sortProducts_newest_missing_date:
  "createdAt exA = [] \<and> newDate exampleDateParse (createdAt exA) = None
   \<and> newDate exampleDateParse (createdAt exB) = Some 1704067200000
   \<and> sortProducts engine exampleDateParse [exA, exB] (js ''newest'') = [exA, exB]
   \<and> sortProducts v8SortShort exampleDateParse [exA, exC, exB] (js ''newest'') = [exA, exB, exC]"
proof -
  have "sortProducts engine exampleDateParse [exA, exB] (js ''newest'') = [exA, exB]"
    by (simp add: sortProducts_def arraySort_def consistentOn_def stableSort_def
        newest_cmp cmpValue_def numSub_def example_dates)
  moreover have "sortProducts v8SortShort exampleDateParse [exA, exC, exB] (js ''newest'') =
      [exA, exB, exC]"
    by (simp add: sortProducts_def arraySort_def consistentOn_def v8SortShort_def
        insertBinary_def newest_cmp cmpValue_def numSub_def example_dates Let_def)
  ultimately show ?thesis
    using exA_fields(3) example_dates(4,5) by blast
qed

text \<open>
  Claim C4, evaluated where it fails. A new array and an untouched input hold for every
  sort key (\<open>sortProducts_st_fresh\<close>), and the order is the stable one wherever the
  comparator is consistent (\<open>sortProducts_stable_fixed_keys\<close>). Under \<open>newest\<close> a product
  without a date makes the comparator inconsistent, and the engine modelled here then
  returns an order that is not stable: in the first list the undated product and the
  dated product behind it compare as equal (\<open>NaN\<close>) and change places; in the second list
  the last two products have the same date, compare as \<open>0\<close>, and change places.
\<close>

theorem sortProducts_newest_unstable:
  "comparatorFor exampleDateParse (js ''newest'') (undated 2) (dated2024 3) = None
   \<and> comparatorFor exampleDateParse (js ''newest'') (dated2024 3) (undated 2) = None
   \<and> sortProducts v8SortShort exampleDateParse
       [dated2023 0, dated2024 1, undated 2, dated2024 3] (js ''newest'')
     = [dated2024 1, dated2024 3, dated2023 0, undated 2]
   \<and> comparatorFor exampleDateParse (js ''newest'') (dated2024 5) (dated2024 6) = Some 0
   \<and> comparatorFor exampleDateParse (js ''newest'') (dated2024 6) (dated2024 5) = Some 0
   \<and> sortProducts v8SortShort exampleDateParse
       [undated 0, undated 1, dated2023 2, dated2024 3, undated 4, dated2024 5, dated2024 6]
       (js ''newest'')
     = [undated 0, undated 1, dated2024 3, dated2024 6, dated2023 2, undated 4, dated2024 5]"
proof -
  have "sortProducts v8SortShort exampleDateParse
       [dated2023 0, dated2024 1, undated 2, dated2024 3] (js ''newest'')
     = [dated2024 1, dated2024 3, dated2023 0, undated 2]"
    by (simp add: sortProducts_def arraySort_def consistentOn_def v8SortShort_def
        insertBinary_def newest_cmp cmpValue_def numSub_def example_dates Let_def)
  moreover have "sortProducts v8SortShort exampleDateParse
       [undated 0, undated 1, dated2023 2, dated2024 3, undated 4, dated2024 5, dated2024 6]
       (js ''newest'')
     = [undated 0, undated 1, dated2024 3, dated2024 6, dated2023 2, undated 4, dated2024 5]"
    by (simp add: sortProducts_def arraySort_def consistentOn_def v8SortShort_def
        insertBinary_def newest_cmp cmpValue_def numSub_def example_dates Let_def)
  ultimately show ?thesis
    by (simp add: newest_cmp numSub_def example_dates)
qed

subsection \<open>Badges and the loader\<close>

text \<open>
  Claim C5. The badge of a raw entry is \<open>Sale\<close> when a compare price is present and
  strictly above the price; otherwise \<open>New\<close> when the creation date parses to an instant
  strictly after the instant thirty days back; otherwise \<open>NoBadge\<close>. It is always one of
  the three, and an entry created exactly at the instant thirty days back is not new.
\<close>

theorem getBadge_spec:
  "getBadge dp t p =
     (if (\<exists>c. r_comparePrice p = Some c \<and> r_price p < c) then Sale
      else if (\<exists>s created. r_createdAt p = Some s \<and> newDate dp s = Some created \<and> t < created)
      then New
      else NoBadge)
   \<and> (getBadge dp t p = Sale \<or> getBadge dp t p = New \<or> getBadge dp t p = NoBadge)
   \<and> (\<forall>s. r_createdAt p = Some s \<and> newDate dp s = Some t \<longrightarrow> getBadge dp t p \<noteq> New)"
proof -
  have sale: "(case r_comparePrice p of None \<Rightarrow> False | Some c \<Rightarrow> c \<noteq> 0 \<and> c > r_price p)
      \<longleftrightarrow> (\<exists>c. r_comparePrice p = Some c \<and> r_price p < c)"
    by (cases "r_comparePrice p") auto
  have new: "(case r_createdAt p of None \<Rightarrow> False
              | Some s \<Rightarrow> s \<noteq> [] \<and> (case newDate dp s of None \<Rightarrow> False | Some created \<Rightarrow> created > t))
      \<longleftrightarrow> (\<exists>s created. r_createdAt p = Some s \<and> newDate dp s = Some created \<and> t < created)"
    by (cases "r_createdAt p") (auto simp: newDate_def split: option.splits)
  have a: "getBadge dp t p =
     (if (\<exists>c. r_comparePrice p = Some c \<and> r_price p < c) then Sale
      else if (\<exists>s created. r_createdAt p = Some s \<and> newDate dp s = Some created \<and> t < created)
      then New
      else NoBadge)"
    unfolding getBadge_def sale new ..
  have b: "getBadge dp t p = Sale \<or> getBadge dp t p = New \<or> getBadge dp t p = NoBadge"
    by (cases "getBadge dp t p") auto
  have c: "\<forall>s. r_createdAt p = Some s \<and> newDate dp s = Some t \<longrightarrow> getBadge dp t p \<noteq> New"
    unfolding a by auto
  from a b c show ?thesis by blast
qed

theorem getBadge_spec_witness:
  "getBadge exampleDateParse 0 (exampleRaw ''D'' 15 (Some 30) (Some ''2024-01-01T00:00:00Z'') []) = Sale
   \<and> getBadge exampleDateParse 1704067199999
        (exampleRaw ''B'' 20 (Some 20) (Some ''2024-01-01T00:00:00Z'') []) = New
   \<and> getBadge exampleDateParse 1704067200000
        (exampleRaw ''B'' 20 None (Some ''2024-01-01T00:00:00Z'') []) \<noteq> New
   \<and> getBadge exampleDateParse 0 (exampleRaw ''A'' 10 None None []) = NoBadge"
proof -
  let ?B = "exampleRaw ''B'' 20 None (Some ''2024-01-01T00:00:00Z'') []"
  have d: "r_createdAt ?B = Some (js ''2024-01-01T00:00:00Z'')
      \<and> newDate exampleDateParse (js ''2024-01-01T00:00:00Z'') = Some 1704067200000"
    by (simp add: exampleRaw_def newDate_def exampleDateParse_def js_Nil_iff)
  from getBadge_spec [of exampleDateParse 1704067200000 ?B]
  have "\<forall>s. r_createdAt ?B = Some s \<and> newDate exampleDateParse s = Some 1704067200000 \<longrightarrow>
          getBadge exampleDateParse 1704067200000 ?B \<noteq> New"
    by blast
  with d have "getBadge exampleDateParse 1704067200000 ?B \<noteq> New"
    by blast
  moreover have "getBadge exampleDateParse 0
      (exampleRaw ''D'' 15 (Some 30) (Some ''2024-01-01T00:00:00Z'') []) = Sale"
    "getBadge exampleDateParse 1704067199999
        (exampleRaw ''B'' 20 (Some 20) (Some ''2024-01-01T00:00:00Z'') []) = New"
    "getBadge exampleDateParse 0 (exampleRaw ''A'' 10 None None []) = NoBadge"
    by (simp_all add: getBadge_def exampleRaw_def newDate_def exampleDateParse_def js_Nil_iff)
  ultimately show ?thesis by blast
qed

text \<open>\<open>parseTags\<close> returns unless a tag has the name of an inherited member as its
  category; so do the normalisation of an entry and the loop over the entries.\<close>

lemma parseTagStep_returns:
  "\<not> inheritedCategory tag \<Longrightarrow> \<exists>result1. parseTagStep tag result = Some result1"
  by (auto simp: inheritedCategory_def parseTagStep_def getProp_def Let_def
      split: prod.splits option.splits)

lemma parseLoop_returns:
  "\<forall>tag\<in>set tags. \<not> inheritedCategory tag \<Longrightarrow> \<exists>result1. parseLoop tags result = Some result1"
proof (induction tags arbitrary: result)
  case Nil
  show ?case by simp
next
  case (Cons tag tags)
  from Cons.prems have "\<not> inheritedCategory tag" by simp
  then obtain r1 where r1: "parseTagStep tag result = Some r1"
    using parseTagStep_returns by blast
  from Cons.prems have "\<forall>tag\<in>set tags. \<not> inheritedCategory tag" by simp
  from Cons.IH [OF this, of r1] r1 show ?case by simp
qed

lemma parseLoop_throws:
  "parseLoop tags result = None \<Longrightarrow> \<exists>tag\<in>set tags. inheritedCategory tag"
  using parseLoop_returns [of tags result] by auto

lemma normalize_returns:
  assumes "\<forall>tag\<in>set (case r_tags p of None \<Rightarrow> [] | Some ts \<Rightarrow> ts). \<not> inheritedCategory tag"
  shows "\<exists>x. normalize dp t index p = Some x \<and> featured x = index \<and> id_p x = r_id p"
proof -
  from parseLoop_returns [OF assms, of "[]"] obtain parsed where
    "parseTags (case r_tags p of None \<Rightarrow> [] | Some ts \<Rightarrow> ts) = Some parsed"
    by (auto simp: parseTags_def)
  then show ?thesis by (simp add: normalize_def)
qed

lemma mapEntries_nth:
  "mapEntries dp t index raw = Some xs \<Longrightarrow>
     length xs = length raw \<and> (\<forall>i<length raw. normalize dp t (index + i) (raw ! i) = Some (xs ! i))"
proof (induction raw arbitrary: index xs)
  case Nil
  then show ?case by simp
next
  case (Cons p raw)
  from Cons.prems obtain x ys where x: "normalize dp t index p = Some x"
    and ys: "mapEntries dp t (Suc index) raw = Some ys" and xs: "xs = x # ys"
    by (auto split: option.splits)
  from Cons.IH [OF ys] have len: "length ys = length raw"
    and nth: "\<forall>i<length raw. normalize dp t (Suc index + i) (raw ! i) = Some (ys ! i)"
    by simp_all
  have "normalize dp t (index + i) ((p # raw) ! i) = Some (xs ! i)" if "i < length (p # raw)" for i
  proof (cases i)
    case 0
    with x xs show ?thesis by simp
  next
    case (Suc j)
    with that have "j < length raw" by simp
    with nth have "normalize dp t (Suc index + j) (raw ! j) = Some (ys ! j)" by blast
    with Suc xs show ?thesis by simp
  qed
  with len xs show ?case by simp
qed

lemma mapEntries_returns:
  "\<forall>p\<in>set raw. \<forall>tag\<in>set (case r_tags p of None \<Rightarrow> [] | Some ts \<Rightarrow> ts). \<not> inheritedCategory tag
     \<Longrightarrow> \<exists>xs. mapEntries dp t index raw = Some xs"
proof (induction raw arbitrary: index)
  case Nil
  show ?case by simp
next
  case (Cons p raw)
  from Cons.prems have "\<forall>tag\<in>set (case r_tags p of None \<Rightarrow> [] | Some ts \<Rightarrow> ts). \<not> inheritedCategory tag"
    by simp
  from normalize_returns [OF this, of dp t index] obtain x where x: "normalize dp t index p = Some x"
    by blast
  from Cons.prems have "\<forall>p\<in>set raw. \<forall>tag\<in>set (case r_tags p of None \<Rightarrow> [] | Some ts \<Rightarrow> ts).
      \<not> inheritedCategory tag"
    by simp
  from Cons.IH [OF this, of "Suc index"] obtain ys where "mapEntries dp t (Suc index) raw = Some ys"
    by blast
  with x show ?case by simp
qed

lemma normalize_fields:
  "normalize dp t index p = Some x \<Longrightarrow> featured x = index \<and> id_p x = r_id p"
  by (auto simp: normalize_def split: option.splits)

text \<open>
  Claim C9, where it fails: when the feed element is missing the loader returns the empty
  list and records no diagnostic.
\<close>

theorem loadShopifyProducts_absent_silent:
  "fst (loadShopifyProducts exampleJsonParse exampleDateParse 0 None) = []
   \<and> snd (loadShopifyProducts exampleJsonParse exampleDateParse 0 None) = []"
  by (simp add: loadShopifyProducts_def)

text \<open>A feed that parses, with the tag \<open>constructor: x\<close> on its second entry: \<open>parseTags\<close>
  throws, the \<open>catch\<close> block takes over, and the catalog is empty.\<close>

lemma loadShopifyProducts_inherited_category:
  "exampleJsonParse exampleFeedInherited \<noteq> None
   \<and> loadShopifyProducts exampleJsonParse exampleDateParse 0 (Some exampleFeedInherited)
       = ([], [parseFailure])"
  by (simp add: loadShopifyProducts_def exampleJsonParse_def exampleFeedInherited_def
      exampleFeedText_def example_eval)

text \<open>
  Claim C9, amended. A missing feed gives the empty list and no diagnostic; a feed that
  does not parse gives the empty list and a diagnostic; a feed that parses and has no tag
  whose category is the name of an inherited member gives one product per entry, in the
  order of the entries, each the normalisation of its entry with \<open>featured\<close> set to the
  entry's zero-based index, and no diagnostic.
\<close>

theorem loadShopifyProducts_spec:
  "loadShopifyProducts jp dp t None = ([], [])
   \<and> (jp txt = None \<longrightarrow>
        fst (loadShopifyProducts jp dp t (Some txt)) = []
        \<and> snd (loadShopifyProducts jp dp t (Some txt)) \<noteq> [])
   \<and> (jp txt = Some raw
        \<and> (\<forall>p\<in>set raw. \<forall>tag\<in>set (case r_tags p of None \<Rightarrow> [] | Some ts \<Rightarrow> ts).
              \<not> inheritedCategory tag) \<longrightarrow>
        length (fst (loadShopifyProducts jp dp t (Some txt))) = length raw
        \<and> (\<forall>i<length raw.
              normalize dp t i (raw ! i) = Some (fst (loadShopifyProducts jp dp t (Some txt)) ! i)
              \<and> featured (fst (loadShopifyProducts jp dp t (Some txt)) ! i) = i
              \<and> id_p (fst (loadShopifyProducts jp dp t (Some txt)) ! i) = r_id (raw ! i))
        \<and> snd (loadShopifyProducts jp dp t (Some txt)) = [])"
proof -
  have a: "loadShopifyProducts jp dp t None = ([], [])"
    by (simp add: loadShopifyProducts_def)
  have b: "fst (loadShopifyProducts jp dp t (Some txt)) = []
        \<and> snd (loadShopifyProducts jp dp t (Some txt)) \<noteq> []" if "jp txt = None"
    using that by (simp add: loadShopifyProducts_def parseFailure_def js_Nil_iff)
  have c: "length (fst (loadShopifyProducts jp dp t (Some txt))) = length raw
        \<and> (\<forall>i<length raw.
              normalize dp t i (raw ! i) = Some (fst (loadShopifyProducts jp dp t (Some txt)) ! i)
              \<and> featured (fst (loadShopifyProducts jp dp t (Some txt)) ! i) = i
              \<and> id_p (fst (loadShopifyProducts jp dp t (Some txt)) ! i) = r_id (raw ! i))
        \<and> snd (loadShopifyProducts jp dp t (Some txt)) = []"
    if jp: "jp txt = Some raw"
      and tags: "\<forall>p\<in>set raw. \<forall>tag\<in>set (case r_tags p of None \<Rightarrow> [] | Some ts \<Rightarrow> ts).
              \<not> inheritedCategory tag"
  proof -
    from mapEntries_returns [OF tags, of dp t 0] obtain xs where xs: "mapEntries dp t 0 raw = Some xs"
      by blast
    have eq: "loadShopifyProducts jp dp t (Some txt) = (xs, [])"
      using jp xs by (simp add: loadShopifyProducts_def)
    from mapEntries_nth [OF xs] have len: "length xs = length raw"
      and nth: "\<forall>i<length raw. normalize dp t i (raw ! i) = Some (xs ! i)"
      by simp_all
    from nth have "\<forall>i<length raw. normalize dp t i (raw ! i) = Some (xs ! i)
        \<and> featured (xs ! i) = i \<and> id_p (xs ! i) = r_id (raw ! i)"
      using normalize_fields by blast
    with len show ?thesis unfolding eq by simp
  qed
  from a b c show ?thesis by blast
qed

theorem loadShopifyProducts_spec_witness:
  "exampleJsonParse (js ''{'') = None
   \<and> fst (loadShopifyProducts exampleJsonParse exampleDateParse 0 (Some (js ''{''))) = []
   \<and> snd (loadShopifyProducts exampleJsonParse exampleDateParse 0 (Some (js ''{''))) \<noteq> []
   \<and> fst (loadShopifyProducts exampleJsonParse exampleDateParse 0 (Some exampleFeedText)) ! 2 = exC
   \<and> featured exC = 2"
proof -
  let ?raw = "[exampleRaw ''A'' 10 None None [''Industry: Welding''],
               exampleRaw ''B'' 20 None (Some ''2024-01-01T00:00:00Z'') [''Industry: Chemical''],
               exampleRaw ''C'' 15 None (Some ''2023-01-01T00:00:00Z'')
                 [''Industry: Welding'', ''Gender: Men'']]"
  have bad: "exampleJsonParse (js ''{'') = None"
    by (simp add: exampleJsonParse_def exampleFeedText_def exampleFeedInherited_def js_eq_iff)
  have good: "exampleJsonParse exampleFeedText = Some ?raw"
    by (simp add: exampleJsonParse_def)
  have tags: "\<forall>p\<in>set ?raw. \<forall>tag\<in>set (case r_tags p of None \<Rightarrow> [] | Some ts \<Rightarrow> ts).
      \<not> inheritedCategory tag"
    by (simp add: exampleRaw_def inheritedCategory_def splitTag_def trim_def isSpace_def
        inheritedNames_def js_def)
  note spec1 = loadShopifyProducts_spec [of exampleJsonParse exampleDateParse 0 "js ''{''"]
  note spec2 = loadShopifyProducts_spec [of exampleJsonParse exampleDateParse 0 exampleFeedText ?raw]
  from spec1 bad
  have 1: "fst (loadShopifyProducts exampleJsonParse exampleDateParse 0 (Some (js ''{''))) = []
     \<and> snd (loadShopifyProducts exampleJsonParse exampleDateParse 0 (Some (js ''{''))) \<noteq> []"
    by blast
  from spec2 good tags
  have "\<forall>i<length ?raw.
          normalize exampleDateParse 0 i (?raw ! i) =
            Some (fst (loadShopifyProducts exampleJsonParse exampleDateParse 0 (Some exampleFeedText)) ! i)
          \<and> featured (fst (loadShopifyProducts exampleJsonParse exampleDateParse 0 (Some exampleFeedText)) ! i) = i
          \<and> id_p (fst (loadShopifyProducts exampleJsonParse exampleDateParse 0 (Some exampleFeedText)) ! i) = r_id (?raw ! i)"
    by blast
  from this [rule_format, of 2]
  have "normalize exampleDateParse 0 2 (?raw ! 2) =
      Some (fst (loadShopifyProducts exampleJsonParse exampleDateParse 0 (Some exampleFeedText)) ! 2)"
    by simp
  then have 2: "fst (loadShopifyProducts exampleJsonParse exampleDateParse 0 (Some exampleFeedText)) ! 2 = exC"
    by (simp add: exC_def)
  from bad 1 2 exC_fields(4) show ?thesis by blast
qed

subsection \<open>Pagination and the update cycle\<close>

lemma renderGrid_view:
  "fst (renderGrid sp True st products) =
     Some \<lparr> cards = take (min (length products) (12 * currentPage st)) products,
            gridShown = (products \<noteq> []), emptyShown = (products = []),
            paginationShown = (12 * currentPage st < length products) \<rparr>"
  by (cases "products = []"; cases "orNull (highlightProduct st)")
     (auto simp: renderGrid_def Let_def ITEMS_PER_PAGE_def mult.commute min_def)

text \<open>
  Claim C10. With the grid element on the page, \<open>renderGrid\<close> shows the first
  \<open>min n (12 * p)\<close> products of the list of \<open>n\<close> products it is given, \<open>p\<close> being the
  current page, and displays the pagination block with the load-more button exactly when
  \<open>12 * p < n\<close>. In \<open>update\<close> the list is the filtered and sorted product list.
\<close>

theorem renderGrid_pagination:
  "(\<exists>v. fst (renderGrid sp True st products) = Some v
        \<and> cards v = take (min (length products) (12 * currentPage st)) products
        \<and> (paginationShown v \<longleftrightarrow> 12 * currentPage st < length products))
   \<and> (hasGrid_p pg \<longrightarrow>
        (\<exists>v. fst (update pg st) = Some v
          \<and> cards v =
              take (min (length (filterProducts (PRODUCTS pg) (activeFilters st))) (12 * currentPage st))
                (sortProducts (sortEngine_p pg) (dateParse_p pg)
                   (filterProducts (PRODUCTS pg) (activeFilters st)) (sortKey_s st))
          \<and> (paginationShown v \<longleftrightarrow>
               12 * currentPage st < length (filterProducts (PRODUCTS pg) (activeFilters st)))))"
proof -
  have a: "\<exists>v. fst (renderGrid sp True st products) = Some v
        \<and> cards v = take (min (length products) (12 * currentPage st)) products
        \<and> (paginationShown v \<longleftrightarrow> 12 * currentPage st < length products)"
    by (simp add: renderGrid_view)
  have b: "\<exists>v. fst (update pg st) = Some v
          \<and> cards v =
              take (min (length (filterProducts (PRODUCTS pg) (activeFilters st))) (12 * currentPage st))
                (sortProducts (sortEngine_p pg) (dateParse_p pg)
                   (filterProducts (PRODUCTS pg) (activeFilters st)) (sortKey_s st))
          \<and> (paginationShown v \<longleftrightarrow>
               12 * currentPage st < length (filterProducts (PRODUCTS pg) (activeFilters st)))"
    if "hasGrid_p pg"
    using that by (simp add: update_def Let_def renderGrid_view length_sortProducts)
  from a b show ?thesis by blast
qed

theorem renderGrid_pagination_witness:
  "(\<exists>v. fst (renderGrid exampleSelectorParses True (exampleState\<lparr>currentPage := 2\<rparr>)
             (replicate 30 exA)) = Some v
        \<and> cards v = replicate 24 exA \<and> paginationShown v)
   \<and> hasGrid_p examplePage
   \<and> (\<exists>v. fst (update examplePage (exampleState\<lparr>activeFilters := []\<rparr>)) = Some v
        \<and> cards v = [exA, exC, exB] \<and> \<not> paginationShown v)"
proof -
  let ?st = "exampleState\<lparr>activeFilters := []\<rparr>"
  have g: "hasGrid_p examplePage"
    by (simp add: examplePage_def)
  have f: "filterProducts (PRODUCTS examplePage) (activeFilters ?st) = [exA, exB, exC]"
    by (simp add: filterProducts_def activeKeysOf_def examplePage_def)
  have s: "sortProducts (sortEngine_p examplePage) (dateParse_p examplePage) [exA, exB, exC]
             (sortKey_s ?st) = [exA, exC, exB]"
    by (simp add: sortProducts_def arraySort_def consistentOn_def stableSort_def comparatorFor_def
        cmpValue_def exampleState_def exA_fields exB_fields exC_fields)
  have p: "currentPage ?st = 1" "currentPage (exampleState\<lparr>currentPage := 2\<rparr>) = 2"
    by (simp_all add: exampleState_def)
  note spec = renderGrid_pagination [of exampleSelectorParses "exampleState\<lparr>currentPage := 2\<rparr>"
      "replicate 30 exA" examplePage, unfolded p]
  note spec' = renderGrid_pagination [of exampleSelectorParses ?st "[]" examplePage, unfolded f s p]
  from spec have 1: "\<exists>v. fst (renderGrid exampleSelectorParses True
        (exampleState\<lparr>currentPage := 2\<rparr>) (replicate 30 exA)) = Some v
        \<and> cards v = replicate 24 exA \<and> paginationShown v"
    by simp
  from spec' g have 2: "\<exists>v. fst (update examplePage ?st) = Some v
        \<and> cards v = [exA, exC, exB] \<and> \<not> paginationShown v"
    by simp
  from 1 g 2 show ?thesis by blast
qed

lemma sortProducts_Nil_iff: "sortProducts engine dp ps k = [] \<longleftrightarrow> ps = []"
  using length_sortProducts [of engine dp ps k] by (metis length_0_conv)

lemma example_selectors:
  "exampleSelectorParses (highlightSelector (js ''A''))"
  "\<not> exampleSelectorParses (highlightSelector [34])"
  by (simp_all add: exampleSelectorParses_def highlightSelector_def js_def)

text \<open>
  Claim C8, where it fails. A page opened with a highlighted product and a filter that
  matches nothing renders the empty state and keeps \<open>highlightProduct\<close>; the clear-all
  action then renders the whole catalog, and that render clears \<open>highlightProduct\<close>.
\<close>

theorem clearAllFilters_resets_highlight:
  "highlightProduct (fst (snd (update examplePage exampleState))) = Some (js ''A'')
   \<and> sortKey_s (fst (snd (update examplePage exampleState))) = js ''price-asc''
   \<and> highlightProduct
       (fst (snd (clearAllFilters examplePage (fst (snd (update examplePage exampleState)))))) = None"
proof -
  have f: "filterProducts [exA, exB, exC] [(js ''Industry'', [Str (js ''Railway'')])] = []"
    by (simp add: filterProducts_def activeKeysOf_def hasSelection_def selectionOf_def
        productMatchesGroup_def tagValues_def inArray_def exA_fields exB_fields exC_fields
        js_eq_iff)
  have u: "fst (snd (update examplePage exampleState)) = exampleState"
    by (simp add: update_def examplePage_def exampleState_def f sortProducts_Nil_iff
        renderGrid_def)
  have f': "filterProducts [exA, exB, exC] [] = [exA, exB, exC]"
    by (simp add: filterProducts_def activeKeysOf_def)
  have "highlightProduct (fst (snd (clearAllFilters examplePage exampleState))) = None"
    by (simp add: clearAllFilters_def update_def examplePage_def exampleState_def f'
        renderGrid_def Let_def sortProducts_Nil_iff orNull_def js_Nil_iff example_selectors)
  then show ?thesis
    unfolding u by (simp add: exampleState_def)
qed

lemma filterProducts_empty: "filterProducts P [] = P"
  by (simp add: filterProducts_def activeKeysOf_def)

lemma renderGrid_state:
  "fst (snd (renderGrid sp hasGrid st products)) =
     (if hasGrid \<and> products \<noteq> []
         \<and> (\<exists>h. orNull (highlightProduct st) = Some h \<and> sp (highlightSelector h))
      then st\<lparr>highlightProduct := None\<rparr> else st)"
  by (cases "orNull (highlightProduct st)") (auto simp: renderGrid_def Let_def)

lemma renderGrid_throws:
  "snd (snd (renderGrid sp hasGrid st products)) =
     (if hasGrid \<and> products \<noteq> []
         \<and> (\<exists>h. orNull (highlightProduct st) = Some h \<and> \<not> sp (highlightSelector h))
      then Some SyntaxError else None)"
  by (cases "orNull (highlightProduct st)") (auto simp: renderGrid_def Let_def)

text \<open>The action ends with the \<open>SyntaxError\<close> of \<open>querySelector\<close> exactly when the grid is
  rendered with products and the selector of the highlighted product does not parse.\<close>

lemma clearAllFilters_throws:
  "snd (snd (clearAllFilters pg st)) =
     (if hasGrid_p pg \<and> PRODUCTS pg \<noteq> []
         \<and> (\<exists>h. orNull (highlightProduct st) = Some h \<and> \<not> selectorParses_p pg (highlightSelector h))
      then Some SyntaxError else None)"
  by (simp add: clearAllFilters_def update_def Let_def renderGrid_throws filterProducts_empty
      sortProducts_Nil_iff)

text \<open>
  Claim C8, amended. The clear-all action empties \<open>activeFilters\<close>, sets \<open>collection\<close> to
  none and \<open>currentPage\<close> to 1 and keeps \<open>sort\<close>. \<open>highlightProduct\<close> keeps its value
  unless it is set, the grid element exists, the catalog is not empty and the selector
  built from the highlighted identifier parses: then the render that the action runs
  clears it.
\<close>

theorem clearAllFilters_spec:
  "activeFilters (fst (snd (clearAllFilters pg st))) = []
   \<and> collection (fst (snd (clearAllFilters pg st))) = None
   \<and> currentPage (fst (snd (clearAllFilters pg st))) = 1
   \<and> sortKey_s (fst (snd (clearAllFilters pg st))) = sortKey_s st
   \<and> highlightProduct (fst (snd (clearAllFilters pg st))) =
       (if hasGrid_p pg \<and> PRODUCTS pg \<noteq> []
           \<and> (\<exists>h. orNull (highlightProduct st) = Some h \<and> selectorParses_p pg (highlightSelector h))
        then None else highlightProduct st)"
  by (auto simp: clearAllFilters_def update_def Let_def renderGrid_state filterProducts_empty
      sortProducts_Nil_iff)

theorem clearAllFilters_spec_witness:
  "sortKey_s (fst (snd (clearAllFilters examplePage exampleState))) = js ''price-asc''
   \<and> activeFilters (fst (snd (clearAllFilters examplePage exampleState))) = []
   \<and> highlightProduct (fst (snd (clearAllFilters examplePage exampleState))) = None
   \<and> highlightProduct
       (fst (snd (clearAllFilters examplePage (exampleState\<lparr>highlightProduct := None\<rparr>)))) = None
   \<and> highlightProduct
       (fst (snd (clearAllFilters examplePage (exampleState\<lparr>highlightProduct := Some [34]\<rparr>))))
       = Some [34]"
proof -
  have pg: "hasGrid_p examplePage" "PRODUCTS examplePage \<noteq> []"
    "selectorParses_p examplePage = exampleSelectorParses"
    by (simp_all add: examplePage_def)
  have st: "sortKey_s exampleState = js ''price-asc''"
    "highlightProduct exampleState = Some (js ''A'')"
    by (simp_all add: exampleState_def)
  show ?thesis
    using clearAllFilters_spec [of examplePage exampleState]
      clearAllFilters_spec [of examplePage "exampleState\<lparr>highlightProduct := None\<rparr>"]
      clearAllFilters_spec [of examplePage "exampleState\<lparr>highlightProduct := Some [34]\<rparr>"]
    by (simp add: pg st orNull_def js_Nil_iff example_selectors)
qed

subsection \<open>Filter taxonomy\<close>

lemma innerOf_update: "innerOf (AList.update k m cm) c = (if c = k then m else innerOf cm c)"
  by (simp add: innerOf_def update_conv')

lemma keys_update: "fst ` set (AList.update k v al) = insert k (fst ` set al)"
  by (simp add: dom_update)

lemma ownKeysOnce_update:
  "ownKeysOnce cm \<Longrightarrow> distinct (map fst m) \<Longrightarrow> ownKeysOnce (AList.update k m cm)"
  by (simp add: ownKeysOnce_def innerOf_update distinct_update)

lemma innerOf_absent: "map_of cm c = None \<Longrightarrow> innerOf cm c = []"
  by (simp add: innerOf_def)

lemma keys_setFlag: "fst ` set (setFlag val inner) = (fst ` set inner) \<union> ({val} - {js ''__proto__''})"
  by (auto simp: setFlag_def keys_update)

lemma distinct_setFlag: "distinct (map fst inner) \<Longrightarrow> distinct (map fst (setFlag val inner))"
  by (simp add: setFlag_def distinct_update)

text \<open>The loop over the values of one category.\<close>

lemma valueLoop:
  "fst ` set (fold (\<lambda>val cm. AList.update cat (setFlag val (innerOf cm cat)) cm) vs cm)
     = (if vs = [] then fst ` set cm else insert cat (fst ` set cm))
   \<and> (\<forall>c. fst ` set (innerOf (fold (\<lambda>val cm. AList.update cat (setFlag val (innerOf cm cat)) cm) vs cm) c)
       = (if c = cat then (set vs - {js ''__proto__''}) \<union> fst ` set (innerOf cm cat)
          else fst ` set (innerOf cm c)))
   \<and> (ownKeysOnce cm \<longrightarrow>
        ownKeysOnce (fold (\<lambda>val cm. AList.update cat (setFlag val (innerOf cm cat)) cm) vs cm))"
proof (induction vs arbitrary: cm)
  case Nil
  show ?case by simp
next
  case (Cons v vs)
  let ?cm = "AList.update cat (setFlag v (innerOf cm cat)) cm"
  have k: "fst ` set ?cm = insert cat (fst ` set cm)"
    by (simp add: keys_update)
  have i: "fst ` set (innerOf ?cm c) =
      (if c = cat then ({v} - {js ''__proto__''}) \<union> fst ` set (innerOf cm cat)
       else fst ` set (innerOf cm c))" for c
    by (simp add: innerOf_update keys_setFlag Un_commute)
  have w: "ownKeysOnce cm \<Longrightarrow> ownKeysOnce ?cm"
    by (rule ownKeysOnce_update) (auto simp: ownKeysOnce_def distinct_setFlag)
  from Cons.IH [of ?cm] k i w show ?case
    by auto
qed

lemma collectCategory_effect:
  assumes inv: "fst ` set cm \<inter> set inheritedNames = {}"
  shows "fst ` set (collectCategory tags cat cm) =
     (if cat \<in> set HIDDEN_CATEGORIES \<union> set inheritedNames then fst ` set cm
      else insert cat (fst ` set cm))
   \<and> (\<forall>c. fst ` set (innerOf (collectCategory tags cat cm) c) =
        (if c = cat \<and> cat \<notin> set HIDDEN_CATEGORIES \<union> set inheritedNames
         then (set (case map_of tags cat of None \<Rightarrow> [] | Some vs \<Rightarrow> vs) - {js ''__proto__''})
                \<union> fst ` set (innerOf cm c)
         else fst ` set (innerOf cm c)))
   \<and> (ownKeysOnce cm \<longrightarrow> ownKeysOnce (collectCategory tags cat cm))"
proof (cases "cat \<in> set HIDDEN_CATEGORIES")
  case True
  then show ?thesis by (simp add: collectCategory_def)
next
  case False
  show ?thesis
  proof (cases "cat \<in> set inheritedNames")
    case True
    with inv have "cat \<notin> fst ` set cm" by blast
    then have "map_of cm cat = None" by (simp add: map_of_eq_None_iff)
    with True have "getProp cm cat = Inherited" by (simp add: getProp_def)
    with True False show ?thesis by (simp add: collectCategory_def)
  next
    case notInherited: False
    let ?cm1 = "case map_of cm cat of None \<Rightarrow> AList.update cat [] cm | Some _ \<Rightarrow> cm"
    let ?vs = "case map_of tags cat of None \<Rightarrow> [] | Some vs \<Rightarrow> vs"
    have k1: "fst ` set ?cm1 = insert cat (fst ` set cm)"
      by (auto simp: keys_update split: option.splits dest: map_of_SomeD intro: rev_image_eqI)
    have i1: "innerOf ?cm1 c = innerOf cm c" for c
      by (auto simp: innerOf_update innerOf_absent split: option.splits)
    have w1: "ownKeysOnce cm \<Longrightarrow> ownKeysOnce ?cm1"
      by (auto simp: ownKeysOnce_update split: option.splits)
    have eq: "collectCategory tags cat cm =
        fold (\<lambda>val cm. AList.update cat (setFlag val (innerOf cm cat)) cm) ?vs ?cm1"
      using False notInherited
      by (cases "map_of cm cat") (simp_all add: collectCategory_def getProp_def)
    from valueLoop [of cat ?vs ?cm1] k1 i1 w1 False notInherited show ?thesis
      unfolding eq by auto
  qed
qed

lemma categoryLoop:
  assumes inv: "fst ` set cm \<inter> set inheritedNames = {}"
  shows "fst ` set (fold (collectCategory tags) cs cm) =
     fst ` set cm \<union> (set cs - (set HIDDEN_CATEGORIES \<union> set inheritedNames))
   \<and> (\<forall>c. fst ` set (innerOf (fold (collectCategory tags) cs cm) c) =
        fst ` set (innerOf cm c) \<union>
        (if c \<in> set cs - (set HIDDEN_CATEGORIES \<union> set inheritedNames)
         then set (case map_of tags c of None \<Rightarrow> [] | Some vs \<Rightarrow> vs) - {js ''__proto__''}
         else {}))
   \<and> (ownKeysOnce cm \<longrightarrow> ownKeysOnce (fold (collectCategory tags) cs cm))"
  using inv
proof (induction cs arbitrary: cm)
  case Nil
  show ?case by simp
next
  case (Cons x cs)
  note eff = collectCategory_effect [OF Cons.prems, of tags x]
  from eff Cons.prems have "fst ` set (collectCategory tags x cm) \<inter> set inheritedNames = {}"
    by auto
  from Cons.IH [OF this] eff show ?case by auto
qed

lemma tagValues_absent: "c \<notin> fst ` set (parsedTags p) \<Longrightarrow> tagValues p c = []"
proof -
  assume "c \<notin> fst ` set (parsedTags p)"
  then have "map_of (parsedTags p) c = None"
    by (simp add: map_of_eq_None_iff)
  then show ?thesis by (simp add: tagValues_def)
qed

lemma collectProduct_effect:
  assumes inv: "fst ` set cm \<inter> set inheritedNames = {}"
  shows "fst ` set (collectProduct p cm) =
     fst ` set cm \<union> (fst ` set (parsedTags p) - (set HIDDEN_CATEGORIES \<union> set inheritedNames))
   \<and> (\<forall>c. fst ` set (innerOf (collectProduct p cm) c) =
        fst ` set (innerOf cm c) \<union>
        (if c \<in> set HIDDEN_CATEGORIES \<union> set inheritedNames then {}
         else set (tagValues p c) - {js ''__proto__''}))
   \<and> (ownKeysOnce cm \<longrightarrow> ownKeysOnce (collectProduct p cm))"
proof -
  let ?tags = "parsedTags p"
  have eq: "collectProduct p cm = fold (collectCategory ?tags) (map fst ?tags) cm"
    by (simp add: collectProduct_def Let_def)
  have v: "(if c \<in> set (map fst ?tags) - (set HIDDEN_CATEGORIES \<union> set inheritedNames)
            then set (case map_of ?tags c of None \<Rightarrow> [] | Some vs \<Rightarrow> vs) - {js ''__proto__''}
            else {}) =
           (if c \<in> set HIDDEN_CATEGORIES \<union> set inheritedNames then {}
            else set (tagValues p c) - {js ''__proto__''})" for c
  proof (cases "c \<in> fst ` set ?tags")
    case True
    then show ?thesis by (simp add: tagValues_def)
  next
    case False
    then have "map_of ?tags c = None" by (simp add: map_of_eq_None_iff)
    with False show ?thesis by (simp add: tagValues_def)
  qed
  from categoryLoop [OF inv, of ?tags "map fst ?tags"] show ?thesis
    unfolding eq v by simp
qed

lemma productLoop:
  assumes inv: "fst ` set cm \<inter> set inheritedNames = {}"
  shows "fst ` set (fold collectProduct ps cm) =
     fst ` set cm \<union> (seenCategories ps - set inheritedNames)
   \<and> (\<forall>c. fst ` set (innerOf (fold collectProduct ps cm) c) =
        fst ` set (innerOf cm c) \<union>
        (if c \<in> set HIDDEN_CATEGORIES \<union> set inheritedNames then {}
         else seenValues ps c - {js ''__proto__''}))
   \<and> (ownKeysOnce cm \<longrightarrow> ownKeysOnce (fold collectProduct ps cm))"
  using inv
proof (induction ps arbitrary: cm)
  case Nil
  show ?case by (simp add: seenCategories_def seenValues_def)
next
  case (Cons p ps)
  note eff = collectProduct_effect [OF Cons.prems, of p]
  from eff Cons.prems have "fst ` set (collectProduct p cm) \<inter> set inheritedNames = {}"
    by auto
  from Cons.IH [OF this] eff show ?case
    by (auto simp: seenCategories_def seenValues_def)
qed

lemma preferredLoop:
  "fst (fold (preferredStep cm) cs gu) =
     fst gu @ map (groupOf cm) [c \<leftarrow> cs. c \<in> fst ` set cm]
   \<and> fst ` set (snd (fold (preferredStep cm) cs gu)) =
     fst ` set (snd gu) \<union> {c \<in> set cs. c \<in> fst ` set cm}"
proof (induction cs arbitrary: gu)
  case Nil
  show ?case by simp
next
  case (Cons c cs)
  obtain gs used where gu: "gu = (gs, used)" by (cases gu)
  show ?case
  proof (cases "map_of cm c")
    case None
    then have "c \<notin> fst ` set cm" by (simp add: map_of_eq_None_iff)
    with None Cons.IH [of gu] show ?thesis
      by (auto simp: preferredStep_def gu)
  next
    case (Some m)
    then have "c \<in> fst ` set cm" by (metis map_of_eq_None_iff option.distinct(1))
    with Some Cons.IH [of "(gs @ [groupOf cm c], AList.update c True used)"] show ?thesis
      by (auto simp: preferredStep_def gu keys_update)
  qed
qed

lemma remainingLoop:
  "fold (remainingStep cm used) cs gs = gs @ map (groupOf cm) [c \<leftarrow> cs. c \<notin> fst ` set used]"
proof (induction cs arbitrary: gs)
  case Nil
  show ?case by simp
next
  case (Cons c cs)
  show ?case
  proof (cases "map_of used c")
    case None
    then have "c \<notin> fst ` set used" by (simp add: map_of_eq_None_iff)
    with None Cons.IH [of "gs @ [groupOf cm c]"] show ?thesis
      by (simp add: remainingStep_def)
  next
    case (Some b)
    then have "c \<in> fst ` set used" by (metis map_of_eq_None_iff option.distinct(1))
    with Some Cons.IH [of gs] show ?thesis
      by (simp add: remainingStep_def)
  qed
qed

lemma buildFilterGroups_eq:
  "buildFilterGroups ps =
     map (groupOf (fold collectProduct ps []))
       ([c \<leftarrow> PREFERRED_ORDER. c \<in> seenCategories ps - set inheritedNames] @
        [c \<leftarrow> sort (map fst (fold collectProduct ps [])). c \<notin> set PREFERRED_ORDER])"
proof -
  let ?cm = "fold collectProduct ps []"
  obtain gs used where f: "fold (preferredStep ?cm) PREFERRED_ORDER ([], []) = (gs, used)"
    by (cases "fold (preferredStep ?cm) PREFERRED_ORDER ([], [])")
  have K: "fst ` set ?cm = seenCategories ps - set inheritedNames"
    using productLoop [of "[]" ps] by simp
  from preferredLoop [of ?cm PREFERRED_ORDER "([], [])"] f
  have gs: "gs = map (groupOf ?cm) [c \<leftarrow> PREFERRED_ORDER. c \<in> fst ` set ?cm]"
    and used: "fst ` set used = {c \<in> set PREFERRED_ORDER. c \<in> fst ` set ?cm}"
    by simp_all
  have "[c \<leftarrow> sort (map fst ?cm). c \<notin> fst ` set used] =
        [c \<leftarrow> sort (map fst ?cm). c \<notin> set PREFERRED_ORDER]"
    by (rule filter_cong) (auto simp: used)
  then have "buildFilterGroups ps =
      gs @ map (groupOf ?cm) [c \<leftarrow> sort (map fst ?cm). c \<notin> set PREFERRED_ORDER]"
    by (simp add: buildFilterGroups_def Let_def f remainingLoop)
  then show ?thesis
    by (simp add: gs K)
qed

lemma sort_distinct_eq: "distinct xs \<Longrightarrow> sort xs = sorted_list_of_set (set xs)"
  by (simp add: sorted_list_of_set_sort_remdups distinct_remdups_id)

lemma remaining_sorted:
  assumes "distinct (map fst cm)"
  shows "[c \<leftarrow> sort (map fst cm). c \<notin> S] = sorted_list_of_set (fst ` set cm - S)"
proof -
  have "[c \<leftarrow> sort (map fst cm). c \<notin> S] = sort [c \<leftarrow> map fst cm. c \<notin> S]"
    by (simp add: filter_sort)
  also have "\<dots> = sorted_list_of_set (set [c \<leftarrow> map fst cm. c \<notin> S])"
    using assms by (intro sort_distinct_eq) simp
  also have "set [c \<leftarrow> map fst cm. c \<notin> S] = fst ` set cm - S"
    by auto
  finally show ?thesis .
qed

lemma ownKeysOnce_empty: "ownKeysOnce []"
  by (simp add: ownKeysOnce_def innerOf_def)

lemma PREFERRED_ORDER_distinct: "distinct PREFERRED_ORDER"
  by (simp add: PREFERRED_ORDER_def js_def)

text \<open>
  What \<open>buildFilterGroups\<close> emits, for every product list: one group for each category
  that is seen, is not hidden and is not the name of an inherited member, first the
  categories of \<open>PREFERRED_ORDER\<close> in that order, then the others in ascending order; the
  label of a group is its key, and its values are the values seen under the category
  other than \<open>__proto__\<close>, each once and in ascending order.
\<close>

lemma buildFilterGroups_groups:
  "map key (buildFilterGroups ps) =
     [c \<leftarrow> PREFERRED_ORDER. c \<in> seenCategories ps - set inheritedNames] @
     sorted_list_of_set (seenCategories ps - set inheritedNames - set PREFERRED_ORDER)
   \<and> distinct (map key (buildFilterGroups ps))
   \<and> set (map key (buildFilterGroups ps)) = seenCategories ps - set inheritedNames
   \<and> (\<forall>g\<in>set (buildFilterGroups ps).
         label g = key g
         \<and> values_g g = sorted_list_of_set (seenValues ps (key g) - {js ''__proto__''}))"
proof -
  let ?cm = "fold collectProduct ps []"
  let ?C = "seenCategories ps - set inheritedNames"
  let ?cats = "[c \<leftarrow> PREFERRED_ORDER. c \<in> ?C] @ sorted_list_of_set (?C - set PREFERRED_ORDER)"
  from productLoop [of "[]" ps] ownKeysOnce_empty
  have K: "fst ` set ?cm = ?C"
    and V: "\<And>c. fst ` set (innerOf ?cm c) =
          (if c \<in> set HIDDEN_CATEGORIES \<union> set inheritedNames then {}
           else seenValues ps c - {js ''__proto__''})"
    and W: "ownKeysOnce ?cm"
    by (simp_all add: innerOf_def)
  have fin: "finite ?C"
    unfolding K [symmetric] by simp
  have eq: "buildFilterGroups ps = map (groupOf ?cm) ?cats"
    using W by (simp add: buildFilterGroups_eq remaining_sorted ownKeysOnce_def K)
  have keys: "map key (buildFilterGroups ps) = ?cats"
    unfolding eq by (simp add: groupOf_def comp_def)
  have dist: "distinct ?cats"
    using PREFERRED_ORDER_distinct fin by auto
  have set_cats: "set ?cats = ?C"
    using fin by auto
  have vals: "values_g (groupOf ?cm c) = sorted_list_of_set (seenValues ps c - {js ''__proto__''})"
    if "c \<in> ?C" for c
  proof -
    from that have nh: "c \<notin> set HIDDEN_CATEGORIES \<union> set inheritedNames"
      by (simp add: seenCategories_def)
    have "distinct (map fst (innerOf ?cm c))"
      using W by (simp add: ownKeysOnce_def)
    then have "sort (map fst (innerOf ?cm c)) = sorted_list_of_set (fst ` set (innerOf ?cm c))"
      using sort_distinct_eq [of "map fst (innerOf ?cm c)"] by simp
    with nh show ?thesis by (simp add: groupOf_def V)
  qed
  have groups: "label g = key g
      \<and> values_g g = sorted_list_of_set (seenValues ps (key g) - {js ''__proto__''})"
    if "g \<in> set (buildFilterGroups ps)" for g
  proof -
    from that obtain c where c: "c \<in> ?C" and g: "g = groupOf ?cm c"
      unfolding eq using set_cats by auto
    have "key g = c" "label g = c"
      by (simp_all add: g groupOf_def)
    with vals [OF c] g show ?thesis by simp
  qed
  from keys dist set_cats groups show ?thesis
    by (simp only: ) blast
qed

text \<open>So the taxonomy is the one that claim C6 describes for every catalog in which no
  category is the name of an inherited member and no value is \<open>__proto__\<close>; a catalog that
  the loader has built meets the first condition.\<close>

lemma buildFilterGroups_plain:
  assumes cats: "seenCategories ps \<inter> set inheritedNames = {}"
    and vals: "\<forall>c. js ''__proto__'' \<notin> seenValues ps c"
  shows "map key (buildFilterGroups ps) =
     [c \<leftarrow> PREFERRED_ORDER. c \<in> seenCategories ps] @
     sorted_list_of_set (seenCategories ps - set PREFERRED_ORDER)
   \<and> distinct (map key (buildFilterGroups ps))
   \<and> set (map key (buildFilterGroups ps)) = seenCategories ps
   \<and> (\<forall>g\<in>set (buildFilterGroups ps).
         label g = key g \<and> values_g g = sorted_list_of_set (seenValues ps (key g)))
   \<and> {(key g, v) | g v. g \<in> set (buildFilterGroups ps) \<and> v \<in> set (values_g g)} =
       {(c, v). c \<notin> set HIDDEN_CATEGORIES \<and> v \<in> seenValues ps c}"
proof -
  from cats have C: "seenCategories ps - set inheritedNames = seenCategories ps"
    by blast
  from vals have V: "seenValues ps c - {js ''__proto__''} = seenValues ps c" for c
    by blast
  note g = buildFilterGroups_groups [of ps, unfolded C V]
  from g have keys: "set (map key (buildFilterGroups ps)) = seenCategories ps"
    by blast
  from g have groups: "\<And>g. g \<in> set (buildFilterGroups ps) \<Longrightarrow>
      label g = key g \<and> values_g g = sorted_list_of_set (seenValues ps (key g))"
    by blast
  have finV: "finite (seenValues ps c)" for c
    by (simp add: seenValues_def)
  have seen_in: "c \<in> seenCategories ps" if "v \<in> seenValues ps c" "c \<notin> set HIDDEN_CATEGORIES" for c v
  proof -
    from that(1) obtain p where p: "p \<in> set ps" "v \<in> set (tagValues p c)"
      by (auto simp: seenValues_def)
    then have "c \<in> fst ` set (parsedTags p)"
      using tagValues_absent [of c p] by (cases "c \<in> fst ` set (parsedTags p)") auto
    with p that(2) show ?thesis by (auto simp: seenCategories_def)
  qed
  have pairs: "{(key g, v) | g v. g \<in> set (buildFilterGroups ps) \<and> v \<in> set (values_g g)} =
       {(c, v). c \<notin> set HIDDEN_CATEGORIES \<and> v \<in> seenValues ps c}" (is "?L = ?R")
  proof (rule set_eqI)
    fix x :: "jsstring \<times> jsstring"
    obtain c v where x: "x = (c, v)" by (cases x)
    have "x \<in> ?L \<longleftrightarrow> (c \<in> seenCategories ps \<and> v \<in> seenValues ps c)"
    proof
      assume "x \<in> ?L"
      then obtain g where g: "g \<in> set (buildFilterGroups ps)" "key g = c" "v \<in> set (values_g g)"
        by (auto simp: x)
      from g(1) have "key g \<in> set (map key (buildFilterGroups ps))" by simp
      with g(2) have "c \<in> seenCategories ps" unfolding keys by simp
      moreover from groups [OF g(1)] g(2,3) finV have "v \<in> seenValues ps c" by simp
      ultimately show "c \<in> seenCategories ps \<and> v \<in> seenValues ps c" ..
    next
      assume a: "c \<in> seenCategories ps \<and> v \<in> seenValues ps c"
      then have "c \<in> set (map key (buildFilterGroups ps))"
        unfolding keys by simp
      then obtain g where g: "g \<in> set (buildFilterGroups ps)" "key g = c"
        by auto
      from groups [OF g(1)] g(2) a finV have "v \<in> set (values_g g)" by simp
      with g have "\<exists>g. c = key g \<and> g \<in> set (buildFilterGroups ps) \<and> v \<in> set (values_g g)"
        by metis
      then show "x \<in> ?L" unfolding x by simp
    qed
    also have "\<dots> \<longleftrightarrow> x \<in> ?R"
      using seen_in [of v c] by (auto simp: x seenCategories_def)
    finally show "x \<in> ?L \<longleftrightarrow> x \<in> ?R" .
  qed
  from g pairs show ?thesis
    by blast
qed

text \<open>\<open>parseTags\<close> never returns an object with a key that is the name of an inherited
  member, so no product of a loaded catalog has such a category.\<close>

lemma parseTagStep_keys:
  assumes "parseTagStep tag result = Some result1"
    and "fst ` set result \<inter> set inheritedNames = {}"
  shows "fst ` set result1 \<inter> set inheritedNames = {}"
proof -
  obtain category val where sp: "splitTag tag = (category, val)"
    by (cases "splitTag tag")
  show ?thesis
  proof (cases "val = []")
    case True
    with assms sp show ?thesis by (simp add: parseTagStep_def)
  next
    case False
    show ?thesis
    proof (cases "map_of result category")
      case None
      with assms(1) sp False have ni: "category \<notin> set inheritedNames"
        by (auto simp: parseTagStep_def getProp_def split: if_splits)
      with None assms(1) sp False have "result1 = AList.update category [val] result"
        by (simp add: parseTagStep_def getProp_def Let_def)
      then have "fst ` set result1 = insert category (fst ` set result)"
        by (simp only: keys_update)
      with ni assms(2) show ?thesis by auto
    next
      case (Some present)
      then have "category \<in> fst ` set result"
        by (metis map_of_eq_None_iff option.distinct(1))
      moreover from Some assms(1) sp False have
        "result1 = AList.update category (present @ [val]) result \<or> result1 = result"
        by (auto simp: parseTagStep_def getProp_def split: if_splits)
      then have "fst ` set result1 \<subseteq> insert category (fst ` set result)"
        using keys_update [of category "present @ [val]" result] by auto
      ultimately show ?thesis using assms(2) by auto
    qed
  qed
qed

lemma parseLoop_keys:
  "parseLoop tags result = Some result1 \<Longrightarrow> fst ` set result \<inter> set inheritedNames = {}
     \<Longrightarrow> fst ` set result1 \<inter> set inheritedNames = {}"
proof (induction tags arbitrary: result)
  case Nil
  then show ?case by simp
next
  case (Cons tag tags)
  from Cons.prems(1) obtain r where r: "parseTagStep tag result = Some r"
    and rest: "parseLoop tags r = Some result1"
    by (auto split: option.splits)
  from parseTagStep_keys [OF r Cons.prems(2)] have "fst ` set r \<inter> set inheritedNames = {}" .
  with rest show ?case by (rule Cons.IH)
qed

lemma normalize_categories:
  "normalize dp t index p = Some x \<Longrightarrow> fst ` set (parsedTags x) \<inter> set inheritedNames = {}"
proof -
  assume n: "normalize dp t index p = Some x"
  then obtain parsed where p: "parseTags (case r_tags p of None \<Rightarrow> [] | Some ts \<Rightarrow> ts) = Some parsed"
    and x: "parsedTags x = parsed"
    by (auto simp: normalize_def split: option.splits)
  from p have "parseLoop (case r_tags p of None \<Rightarrow> [] | Some ts \<Rightarrow> ts) [] = Some parsed"
    by (simp add: parseTags_def)
  from parseLoop_keys [OF this] x show ?thesis by simp
qed

lemma loaded_categories:
  "seenCategories (fst (loadShopifyProducts jp dp t el)) \<inter> set inheritedNames = {}"
proof -
  let ?ps = "fst (loadShopifyProducts jp dp t el)"
  have "fst ` set (parsedTags x) \<inter> set inheritedNames = {}" if x: "x \<in> set ?ps" for x
  proof -
    from x obtain entries xs where xs: "mapEntries dp t 0 entries = Some xs" and ps: "?ps = xs"
      by (auto simp: loadShopifyProducts_def split: option.splits)
    from x ps obtain i where i: "i < length xs" "xs ! i = x"
      by (auto simp: in_set_conv_nth)
    from mapEntries_nth [OF xs] i have "normalize dp t (0 + i) (entries ! i) = Some x"
      by auto
    then show ?thesis by (rule normalize_categories)
  qed
  then show ?thesis by (auto simp: seenCategories_def)
qed

text \<open>\<open>parseTags\<close> throws exactly when a tag has the name of an inherited member as its
  category.\<close>

lemma parseTagStep_throws:
  assumes "inheritedCategory tag" "fst ` set result \<inter> set inheritedNames = {}"
  shows "parseTagStep tag result = None"
proof -
  obtain category val where sp: "splitTag tag = (category, val)"
    by (cases "splitTag tag")
  with assms(1) have v: "val \<noteq> []" and c: "category \<in> set inheritedNames"
    by (simp_all add: inheritedCategory_def)
  from c assms(2) have "category \<notin> fst ` set result" by blast
  then have "map_of result category = None" by (simp add: map_of_eq_None_iff)
  with c have "getProp result category = Inherited" by (simp add: getProp_def)
  with sp v show ?thesis by (simp add: parseTagStep_def)
qed

lemma parseLoop_throws_iff:
  "fst ` set result \<inter> set inheritedNames = {} \<Longrightarrow>
     parseLoop tags result = None \<longleftrightarrow> (\<exists>tag\<in>set tags. inheritedCategory tag)"
proof (induction tags arbitrary: result)
  case Nil
  show ?case by simp
next
  case (Cons tag tags)
  show ?case
  proof (cases "inheritedCategory tag")
    case True
    with parseTagStep_throws [OF True Cons.prems] show ?thesis by simp
  next
    case False
    then obtain r where r: "parseTagStep tag result = Some r"
      using parseTagStep_returns by blast
    from parseTagStep_keys [OF r Cons.prems] have "fst ` set r \<inter> set inheritedNames = {}" .
    from Cons.IH [OF this] r False show ?thesis by simp
  qed
qed

lemma parseTags_throws_iff:
  "parseTags tags = None \<longleftrightarrow> (\<exists>tag\<in>set tags. inheritedCategory tag)"
  unfolding parseTags_def by (rule parseLoop_throws_iff) simp

text \<open>For a loaded catalog in which no value is \<open>__proto__\<close> the taxonomy is the one that
  claim C6 describes.\<close>

lemma buildFilterGroups_loaded:
  assumes "\<forall>c. js ''__proto__'' \<notin> seenValues (fst (loadShopifyProducts jp dp t el)) c"
  shows "map key (buildFilterGroups (fst (loadShopifyProducts jp dp t el))) =
     [c \<leftarrow> PREFERRED_ORDER. c \<in> seenCategories (fst (loadShopifyProducts jp dp t el))] @
     sorted_list_of_set (seenCategories (fst (loadShopifyProducts jp dp t el)) - set PREFERRED_ORDER)
   \<and> distinct (map key (buildFilterGroups (fst (loadShopifyProducts jp dp t el))))
   \<and> (\<forall>g\<in>set (buildFilterGroups (fst (loadShopifyProducts jp dp t el))).
         label g = key g
         \<and> values_g g = sorted_list_of_set (seenValues (fst (loadShopifyProducts jp dp t el)) (key g)))
   \<and> {(key g, v) | g v. g \<in> set (buildFilterGroups (fst (loadShopifyProducts jp dp t el)))
                         \<and> v \<in> set (values_g g)} =
       {(c, v). c \<notin> set HIDDEN_CATEGORIES \<and> v \<in> seenValues (fst (loadShopifyProducts jp dp t el)) c}"
  using buildFilterGroups_plain [OF loaded_categories assms] by blast

lemma buildFilterGroups_exampleCatalog:
  "buildFilterGroups exampleCatalog =
     [\<lparr>key = js ''Industry'', label = js ''Industry'', values_g = [js ''Chemical'', js ''Welding'']\<rparr>,
      \<lparr>key = js ''Gender'', label = js ''Gender'', values_g = [js ''Men'']\<rparr>,
      \<lparr>key = js ''Alpha'', label = js ''Alpha'', values_g = [js ''One'']\<rparr>,
      \<lparr>key = js ''Zebra'', label = js ''Zebra'', values_g = [js ''Stripes'']\<rparr>]"
proof -
  have cm: "fold collectProduct exampleCatalog [] =
      [(js ''Industry'', [(js ''Welding'', True), (js ''Chemical'', True)]),
       (js ''Gender'', [(js ''Men'', True)]),
       (js ''Zebra'', [(js ''Stripes'', True)]),
       (js ''Alpha'', [(js ''One'', True)])]"
    by (simp add: exampleCatalog_def collectProduct_def collectCategory_def innerOf_def
        setFlag_def getProp_def inheritedNames_def HIDDEN_CATEGORIES_def
        exA_fields exB_fields exC_fields exD_fields exZ_fields js_def)
  show ?thesis
    unfolding buildFilterGroups_def cm
    by (simp add: PREFERRED_ORDER_def preferredStep_def remainingStep_def groupOf_def innerOf_def
        js_def)
qed

text \<open>
  Claim C6, evaluated where it fails. The loader turns the tags \<open>Industry: __proto__\<close> and
  \<open>Industry: Welding\<close> into two values of the category \<open>Industry\<close>. \<open>buildFilterGroups\<close>
  collects the values of a category as the keys of an object; the assignment to the key
  \<open>__proto__\<close> stores nothing, and the group's values are \<open>Welding\<close> alone.
\<close>

theorem buildFilterGroups_proto_value:
  "rawTags exP = [js ''Industry: __proto__'', js ''Industry: Welding'']
   \<and> parsedTags exP = [(js ''Industry'', [js ''__proto__'', js ''Welding''])]
   \<and> seenValues [exP] (js ''Industry'') = {js ''__proto__'', js ''Welding''}
   \<and> buildFilterGroups [exP] =
       [\<lparr>key = js ''Industry'', label = js ''Industry'', values_g = [js ''Welding'']\<rparr>]"
proof -
  have r: "rawTags exP = [js ''Industry: __proto__'', js ''Industry: Welding'']"
    by (simp add: exP_def example_eval)
  have s: "seenValues [exP] (js ''Industry'') = {js ''__proto__'', js ''Welding''}"
    by (simp add: seenValues_def tagValues_def exP_fields)
  have b: "buildFilterGroups [exP] =
       [\<lparr>key = js ''Industry'', label = js ''Industry'', values_g = [js ''Welding'']\<rparr>]"
    by (simp add: buildFilterGroups_def collectProduct_def collectCategory_def exP_fields
        getProp_def inheritedNames_def HIDDEN_CATEGORIES_def PREFERRED_ORDER_def preferredStep_def
        remainingStep_def groupOf_def innerOf_def setFlag_def js_def)
  from r exP_fields s b show ?thesis by blast
qed

subsection \<open>URL parameters\<close>

lemma js_small: "u \<in> set (js s) \<Longrightarrow> u < 256"
proof -
  assume "u \<in> set (js s)"
  then obtain c :: char where "u = of_char c" by (auto simp: js_def)
  then show ?thesis by (simp add: of_char_def)
qed


lemma toUSV_Cons_regular: "\<not> isHigh x \<Longrightarrow> \<not> isLow x \<Longrightarrow> toUSV (x # r) = x # toUSV r"
  by (cases r) auto



lemma toUSV_plain:
  "\<forall>u\<in>set a. u < 0xD800 \<Longrightarrow> toUSV c = a \<longleftrightarrow> c = a"
proof (induction c arbitrary: a rule: toUSV.induct)
  case 1
  show ?case by auto
next
  case (2 x)
  then show ?case by (cases a) (auto simp: isHigh_def isLow_def)
next
  case (3 x y zs)
  show ?case
  proof (cases a)
    case Nil
    then show ?thesis by simp
  next
    case (Cons b bs)
    with "3.prems" have b: "b < 0xD800" and bs: "\<forall>u\<in>set bs. u < 0xD800" by simp_all
    from b have nb: "b \<noteq> 0xFFFD" "\<not> isHigh b" "\<not> isLow b"
      by (simp_all add: isHigh_def isLow_def)
    show ?thesis
    proof (cases "isHigh x \<or> isLow x")
      case True
      with nb have "x \<noteq> b" by auto
      moreover have "toUSV (x # y # zs) \<noteq> b # bs"
      proof (cases "isHigh x \<and> isLow y")
        case True
        with \<open>x \<noteq> b\<close> show ?thesis by simp
      next
        case False
        with True nb(1) show ?thesis by auto
      qed
      ultimately show ?thesis by (simp add: Cons)
    next
      case False
      then have "toUSV (x # y # zs) = x # toUSV (y # zs)" by simp
      moreover from False "3.IH"(4) [of bs] bs have "toUSV (y # zs) = bs \<longleftrightarrow> y # zs = bs"
        by simp
      ultimately show ?thesis by (auto simp: Cons)
    qed
  qed
qed

lemma toUSV_eq_js: "toUSV c = js s \<longleftrightarrow> c = js s"
  by (rule toUSV_plain) (use js_small in fastforce)

lemma toUSV_js: "toUSV (js s) = js s"
  using toUSV_eq_js [of "js s" s] by simp


lemma regular_comma: "\<not> isHigh 44" "\<not> isLow 44"
  by (simp_all add: isHigh_def isLow_def)





lemma splitOn_plain: "c \<notin> set x \<Longrightarrow> splitOn c x = [x]"
  by (induction x) auto











lemma orNull_idem: "orNull (orNull x) = orNull x"
  by (simp add: orNull_def split: option.splits)












lemma exampleGroups_eval:
  "exampleGroups =
     [\<lparr>key = js ''Industry'', label = js ''Industry'', values_g = [js ''Chemical'', js ''Welding'']\<rparr>,
      \<lparr>key = js ''Gender'', label = js ''Gender'', values_g = [js ''Men'']\<rparr>,
      \<lparr>key = js ''Alpha'', label = js ''Alpha'', values_g = [js ''One'']\<rparr>,
      \<lparr>key = js ''Zebra'', label = js ''Zebra'', values_g = [js ''Stripes'']\<rparr>]"
  unfolding exampleGroups_def by (rule buildFilterGroups_exampleCatalog)

lemma example_aliases:
  "getProp COLLECTION_MAP (js ''welding'') = Own (js ''Industry'', js ''Welding'')"
  "getProp COLLECTION_MAP (js ''constructor'') = Inherited"
  "getProp COLLECTION_MAP (js ''boots'') = Absent"
  by (simp_all add: getProp_def COLLECTION_MAP_def inheritedNames_def js_eq_iff)

lemma js_join: "js a @ 44 # js b = js (a @ CHR '','' # b)"
  by (simp add: js_def)

lemma example_splits:
  "splitOn 44 (js ''Welding'') = [js ''Welding'']"
  "splitOn 44 (js ''Men'') = [js ''Men'']"
  "splitOn 44 (js ''Welding,Chemical'') = [js ''Welding'', js ''Chemical'']"
  "splitOn 44 (js ''Oil, Gas'') = [js ''Oil'', js '' Gas'']"
  by (simp_all add: js_def)

lemmas codec_eval = encode_def decode_def writeURLParams_def readURLParams_def writeGroup_def
  readGroup_def applyCollection_def paramsGet_def paramsSet_def joinValues_def textOf_def
  initialState_def orNull_def orElse_def hasSelection_def selectionOf_def
  toUSV_js js_eq_iff js_Nil_iff js_join example_aliases example_splits


text \<open>A collection named like an inherited member seeds the filter key \<open>undefined\<close> with
  the selection \<open>[undefined]\<close>, which no product matches.\<close>

lemma decode_inherited_collection:
  "activeFilters (decode exampleGroups [(js ''collection'', js ''constructor'')]) =
     [(js ''undefined'', [Undefined])]"
  "filterProducts exampleCatalog [(js ''undefined'', [Undefined])] = []"
  by (simp_all add: exampleGroups_eval codec_eval filterProducts_def activeKeysOf_def
      productMatchesGroup_def inArray_def exampleCatalog_def)


lemma selectionOf_cong: "map_of F k = map_of F' k \<Longrightarrow> selectionOf F k = selectionOf F' k"
  by (simp add: selectionOf_def)





text \<open>
  The conditions are needed. Decoding does not restore a selection under a key that is no
  filter group, an empty sort key, a selection that is the single empty string, or the
  sort key when a group is named \<open>sort\<close>. Encoding again does not give the same
  parameters when a group is named \<open>sort\<close> (the order changes), when two group keys are
  the same parameter name (the order changes), or when a selection is written as the
  empty string (the parameter is dropped).
\<close>

lemma codec_conditions_needed:
  "activeFilters (decode exampleGroups
     (encode exampleGroups
        (exampleSelected\<lparr>activeFilters := [(js ''Protection'', [Str (js ''Hi-Vis'')])],
                          collection := None\<rparr>))) = []"
  "sortKey_s (decode exampleGroups (encode exampleGroups (exampleSelected\<lparr>sortKey_s := []\<rparr>))) =
     js ''featured''"
  "activeFilters (decode exampleGroups
     (encode exampleGroups
        (exampleUnchecked\<lparr>activeFilters := [(js ''Gender'', [Str []])], collection := None\<rparr>))) = []"
  "sortKey_s (decode [\<lparr>key = js ''sort'', label = js ''sort'', values_g = [js ''x'']\<rparr>]
     (encode [\<lparr>key = js ''sort'', label = js ''sort'', values_g = [js ''x'']\<rparr>]
        (exampleSelected\<lparr>activeFilters := [(js ''sort'', [Str (js ''x'')])], collection := None\<rparr>)))
     = js ''x''"
  by (simp_all add: exampleGroups_eval exampleUnchecked_def exampleSelected_def codec_eval
      splitOn_plain)

lemma codec_conditions_needed_again:
  "encode [\<lparr>key = js ''Industry'', label = [], values_g = []\<rparr>, \<lparr>key = js ''sort'', label = [], values_g = []\<rparr>]
     (exampleUnchecked\<lparr>activeFilters := [(js ''Industry'', [Str (js ''Welding'')]),
                                           (js ''sort'', [Str (js ''Men'')])],
                        collection := None\<rparr>)
     = [(js ''Industry'', js ''Welding''), (js ''sort'', js ''Men'')]"
  "encode [\<lparr>key = js ''Industry'', label = [], values_g = []\<rparr>, \<lparr>key = js ''sort'', label = [], values_g = []\<rparr>]
     (decode [\<lparr>key = js ''Industry'', label = [], values_g = []\<rparr>, \<lparr>key = js ''sort'', label = [], values_g = []\<rparr>]
        [(js ''Industry'', js ''Welding''), (js ''sort'', js ''Men'')])
     = [(js ''sort'', js ''Men''), (js ''Industry'', js ''Welding'')]"
  "encode exampleGroups (exampleUnchecked\<lparr>activeFilters := [(js ''Gender'', [Str []])],
                                            collection := None\<rparr>)
     = [(js ''Gender'', [])]"
  "encode exampleGroups (decode exampleGroups [(js ''Gender'', [])]) = []"
  by (simp_all add: exampleGroups_eval exampleUnchecked_def codec_eval)

lemma codec_colliding_keys:
  "toUSV [0xD800] = toUSV [0xDC00]"
  "encode [\<lparr>key = [0xD800], label = [], values_g = []\<rparr>, \<lparr>key = js ''Men'', label = [], values_g = []\<rparr>,
           \<lparr>key = [0xDC00], label = [], values_g = []\<rparr>]
     (exampleUnchecked\<lparr>activeFilters := [(js ''Men'', [Str (js ''Men'')]), ([0xDC00], [Str (js ''Men'')])],
                        collection := None\<rparr>)
     = [(js ''Men'', js ''Men''), ([0xFFFD], js ''Men'')]"
  "encode [\<lparr>key = [0xD800], label = [], values_g = []\<rparr>, \<lparr>key = js ''Men'', label = [], values_g = []\<rparr>,
           \<lparr>key = [0xDC00], label = [], values_g = []\<rparr>]
     (decode [\<lparr>key = [0xD800], label = [], values_g = []\<rparr>, \<lparr>key = js ''Men'', label = [], values_g = []\<rparr>,
              \<lparr>key = [0xDC00], label = [], values_g = []\<rparr>]
        [(js ''Men'', js ''Men''), ([0xFFFD], js ''Men'')])
     = [([0xFFFD], js ''Men''), (js ''Men'', js ''Men'')]"
proof -
  have ne: "js ''Men'' \<noteq> [0xFFFD]" "js ''Men'' \<noteq> [0xD800]" "js ''Men'' \<noteq> [0xDC00]"
    "js ''sort'' \<noteq> [0xFFFD]" "js ''collection'' \<noteq> [0xFFFD]" "js ''product'' \<noteq> [0xFFFD]"
    "[0xFFFD] \<noteq> js ''Men''" "[0xD800] \<noteq> js ''Men''" "[0xDC00] \<noteq> js ''Men''"
    by (simp_all add: js_def)
  show "toUSV [0xD800] = toUSV [0xDC00]"
    by (simp add: isHigh_def isLow_def)
  show "encode [\<lparr>key = [0xD800], label = [], values_g = []\<rparr>, \<lparr>key = js ''Men'', label = [], values_g = []\<rparr>,
           \<lparr>key = [0xDC00], label = [], values_g = []\<rparr>]
     (exampleUnchecked\<lparr>activeFilters := [(js ''Men'', [Str (js ''Men'')]), ([0xDC00], [Str (js ''Men'')])],
                        collection := None\<rparr>)
     = [(js ''Men'', js ''Men''), ([0xFFFD], js ''Men'')]"
    by (simp add: exampleUnchecked_def codec_eval ne isHigh_def isLow_def)
  show "encode [\<lparr>key = [0xD800], label = [], values_g = []\<rparr>, \<lparr>key = js ''Men'', label = [], values_g = []\<rparr>,
           \<lparr>key = [0xDC00], label = [], values_g = []\<rparr>]
     (decode [\<lparr>key = [0xD800], label = [], values_g = []\<rparr>, \<lparr>key = js ''Men'', label = [], values_g = []\<rparr>,
              \<lparr>key = [0xDC00], label = [], values_g = []\<rparr>]
        [(js ''Men'', js ''Men''), ([0xFFFD], js ''Men'')])
     = [([0xFFFD], js ''Men''), (js ''Men'', js ''Men'')]"
    by (simp add: codec_eval ne isHigh_def isLow_def)
qed

text \<open>Nor does decoding restore a sort key with a lone surrogate or a selection with an
  element that is \<open>undefined\<close>, and a group named \<open>product\<close> is read back as the
  highlighted product.\<close>

lemma codec_conditions_needed_more:
  "sortKey_s (decode exampleGroups (encode exampleGroups (exampleSelected\<lparr>sortKey_s := [0xD800]\<rparr>)))
     = [0xFFFD]"
  "highlightProduct
     (decode [\<lparr>key = js ''product'', label = [], values_g = []\<rparr>]
        (encode [\<lparr>key = js ''product'', label = [], values_g = []\<rparr>]
           (exampleUnchecked\<lparr>activeFilters := [(js ''product'', [Str (js ''Men'')])],
                              collection := None\<rparr>)))
     = Some (js ''Men'')"
  "activeFilters
     (decode exampleGroups
        (encode exampleGroups
           (exampleUnchecked\<lparr>activeFilters := [(js ''Gender'', [Undefined, Str (js ''Men'')])],
                              collection := None\<rparr>)))
     = [(js ''Gender'', [Str [], Str (js ''Men'')])]"
proof -
  have ne: "[0xD800] \<noteq> js ''featured''" "[0xFFFD] \<noteq> js ''featured''"
    "js ''sort'' \<noteq> [0xFFFD]" "js ''collection'' \<noteq> [0xFFFD]"
    by (simp_all add: js_def)
  have s: "splitOn 44 (44 # js ''Men'') = [[], js ''Men'']"
    by (simp add: js_def)
  show "sortKey_s (decode exampleGroups (encode exampleGroups (exampleSelected\<lparr>sortKey_s := [0xD800]\<rparr>)))
     = [0xFFFD]"
    by (simp add: exampleGroups_eval exampleSelected_def codec_eval ne isHigh_def isLow_def)
  show "highlightProduct
     (decode [\<lparr>key = js ''product'', label = [], values_g = []\<rparr>]
        (encode [\<lparr>key = js ''product'', label = [], values_g = []\<rparr>]
           (exampleUnchecked\<lparr>activeFilters := [(js ''product'', [Str (js ''Men'')])],
                              collection := None\<rparr>)))
     = Some (js ''Men'')"
    by (simp add: exampleUnchecked_def codec_eval)
  have j: "joinValues [Undefined, Str (js ''Men'')] = 44 # js ''Men''"
    by (simp add: joinValues_def textOf_def)
  have u: "toUSV (44 # js ''Men'') = 44 # js ''Men''"
    by (simp add: toUSV_Cons_regular regular_comma toUSV_js)
  show "activeFilters
     (decode exampleGroups
        (encode exampleGroups
           (exampleUnchecked\<lparr>activeFilters := [(js ''Gender'', [Undefined, Str (js ''Men'')])],
                              collection := None\<rparr>)))
     = [(js ''Gender'', [Str [], Str (js ''Men'')])]"
    by (simp add: exampleGroups_eval exampleUnchecked_def encode_def decode_def writeURLParams_def
        readURLParams_def writeGroup_def readGroup_def applyCollection_def paramsGet_def
        paramsSet_def initialState_def orNull_def orElse_def hasSelection_def selectionOf_def
        toUSV_js js_eq_iff js_Nil_iff j u s example_splits)
qed

text \<open>A group named \<open>collection\<close> is read back as the collection, which then seeds a
  filter.\<close>

lemma codec_group_named_collection:
  "encode [\<lparr>key = js ''collection'', label = [], values_g = []\<rparr>,
           \<lparr>key = js ''Industry'', label = [], values_g = []\<rparr>]
     (exampleUnchecked\<lparr>activeFilters := [(js ''collection'', [Str (js ''welding'')])],
                        collection := None\<rparr>)
     = [(js ''collection'', js ''welding'')]"
  "encode [\<lparr>key = js ''collection'', label = [], values_g = []\<rparr>,
           \<lparr>key = js ''Industry'', label = [], values_g = []\<rparr>]
     (decode [\<lparr>key = js ''collection'', label = [], values_g = []\<rparr>,
              \<lparr>key = js ''Industry'', label = [], values_g = []\<rparr>]
        [(js ''collection'', js ''welding'')])
     = [(js ''collection'', js ''welding''), (js ''Industry'', js ''Welding'')]"
proof -
  have s: "splitOn 44 (js ''welding'') = [js ''welding'']"
    by (simp add: js_def)
  show "encode [\<lparr>key = js ''collection'', label = [], values_g = []\<rparr>,
           \<lparr>key = js ''Industry'', label = [], values_g = []\<rparr>]
     (exampleUnchecked\<lparr>activeFilters := [(js ''collection'', [Str (js ''welding'')])],
                        collection := None\<rparr>)
     = [(js ''collection'', js ''welding'')]"
    by (simp add: exampleUnchecked_def codec_eval)
  show "encode [\<lparr>key = js ''collection'', label = [], values_g = []\<rparr>,
           \<lparr>key = js ''Industry'', label = [], values_g = []\<rparr>]
     (decode [\<lparr>key = js ''collection'', label = [], values_g = []\<rparr>,
              \<lparr>key = js ''Industry'', label = [], values_g = []\<rparr>]
        [(js ''collection'', js ''welding'')])
     = [(js ''collection'', js ''welding''), (js ''Industry'', js ''Welding'')]"
    by (simp add: codec_eval s Let_def)
qed

end
